theory Spec2Isabelle
  imports Complex_Main "HOL-Library.Word"
begin

section \<open>Data model\<close>

text \<open>
  A row of the \<open>Hits\<close> table and a row of the \<open>Cluster\<close> table
  (\<open>cluster_table_description\<close> in \<open>cluster_hits\<close>). Pixel indices are 1-based.
  The dtype of the hit columns is fixed by the input file, not by the source, so the
  fields are integers. The event number is an \<open>int64\<close> column, in the spec's data model
  as in \<open>cluster_table_description\<close>: an event number is an integer from \<open>-2^63\<close>
  up to \<open>2^63 - 1\<close>, and the one operation on event numbers that can leave this range,
  the difference \<open>np.diff\<close> takes, wraps modulo \<open>2^64\<close>.
\<close>

record hit =
  event_number :: int
  frame :: int
  column :: int
  row :: int
  charge :: int

record cluster =
  cl_event_number :: int
  ID :: nat
  n_hits :: nat
  cl_charge :: int
  seed_column :: int
  seed_row :: int
  mean_column :: "rat option"
  mean_row :: "rat option"

text \<open>The exceptions the stages can raise.\<close>

datatype error =
    IOError | NoSuchNodeError | NodeError | IndexError | ValueError
  | AttributeError | RuntimeError | TypeError

section \<open>The table store\<close>

text \<open>
  An HDF5 file is a set of named nodes under its root; the store maps a path to the file
  found there. \<open>tb.open_file(path, 'r')\<close> fails on a missing file,
  \<open>tb.open_file(path, 'w')\<close> replaces whatever is at the path by an empty file, and
  refuses a path that is still open for reading. Arrays are indexed
  \<open>[column][row]\<close>.
\<close>

datatype node =
    HitTable "hit list" | ClusterTable "cluster list"
  | IntArray "int list list" | BoolArray "bool list list"

type_synonym h5file = "string \<rightharpoonup> node"
type_synonym filesystem = "string \<rightharpoonup> h5file"

definition open_file_r :: "filesystem \<Rightarrow> string \<Rightarrow> error + h5file" where
  "open_file_r fs path = (case fs path of None \<Rightarrow> Inl IOError | Some f \<Rightarrow> Inr f)"

definition get_node :: "h5file \<Rightarrow> string \<Rightarrow> error + node" where
  "get_node f name = (case f name of None \<Rightarrow> Inl NoSuchNodeError | Some n \<Rightarrow> Inr n)"

definition get_hits :: "h5file \<Rightarrow> error + hit list" where
  "get_hits f =
     (case f ''Hits'' of
        None \<Rightarrow> Inl NoSuchNodeError
      | Some (HitTable t) \<Rightarrow> Inr t
      | Some _ \<Rightarrow> Inl TypeError)"

definition create_node :: "h5file \<Rightarrow> string \<Rightarrow> node \<Rightarrow> error + h5file" where
  "create_node f name n = (if f name \<noteq> None then Inl NodeError else Inr (f(name \<mapsto> n)))"

section \<open>Collaborators of the stages\<close>

subsection \<open>The chunked reader\<close>

text \<open>
  Modelled from the spec: \<open>analysis_utils.data_aligned_at_events\<close> is not among the
  sources. The spec has the reader return the rows of the table in order, in chunks of
  \<open>chunk_size\<close> rows, each extended forward until the event of its last row is fully
  consumed, so that no event is split over two chunks. A table without rows yields no
  chunk. A \<open>chunk_size\<close> of 0 is outside the contract; the model yields no chunk then.
\<close>

definition chunk_stop :: "hit list \<Rightarrow> nat \<Rightarrow> nat" where
  "chunk_stop table chunk_size =
     chunk_size +
     length (takeWhile (\<lambda>h. event_number h = event_number (last (take chunk_size table)))
                       (drop chunk_size table))"

function data_aligned_at_events :: "hit list \<Rightarrow> nat \<Rightarrow> hit list list" where
  "data_aligned_at_events table chunk_size =
     (if table = [] \<or> chunk_size = 0 then []
      else take (chunk_stop table chunk_size) table #
           data_aligned_at_events (drop (chunk_stop table chunk_size) table) chunk_size)"
  by pat_completeness auto
termination
  by (relation "measure (\<lambda>(table, chunk_size). length table)") (auto simp: chunk_stop_def)

declare data_aligned_at_events.simps [simp del]

subsection \<open>The occupancy histogram\<close>

text \<open>
  Modelled from the spec: \<open>analysis_utils.hist_2d_index\<close> is not among the sources.
  Entry \<open>[x][y]\<close> of the histogram of shape \<open>shape\<close> is the number of index pairs equal
  to \<open>(x, y)\<close>; an index outside the shape is an \<open>IndexError\<close>.
\<close>

definition in_shape :: "nat \<times> nat \<Rightarrow> int \<times> int \<Rightarrow> bool" where
  "in_shape shape p =
     (0 \<le> fst p \<and> fst p < int (fst shape) \<and> 0 \<le> snd p \<and> snd p < int (snd shape))"

definition hist_2d_index :: "int list \<Rightarrow> int list \<Rightarrow> nat \<times> nat \<Rightarrow> error + int list list" where
  "hist_2d_index x y shape =
     (if list_all (in_shape shape) (zip x y)
      then Inr (map (\<lambda>c. map (\<lambda>r. int (length (filter (\<lambda>p. p = (int c, int r)) (zip x y))))
                              [0..<snd shape])
                    [0..<fst shape])
      else Inl IndexError)"

subsection \<open>The median filter\<close>

text \<open>
  \<open>scipy.ndimage.median_filter(a, size, mode='constant', cval=0.0)\<close> on a
  two-dimensional integer array: the window of \<open>size\<close> entries per axis around an
  entry starts \<open>size div 2\<close> entries before it, reads 0 outside the array, and the
  result is the entry of rank \<open>(number of window entries) div 2\<close> of the sorted
  window. An empty window is refused.
\<close>

definition pad_get :: "int list list \<Rightarrow> int \<Rightarrow> int \<Rightarrow> int" where
  "pad_get a i j =
     (if 0 \<le> i \<and> i < int (length a) \<and> 0 \<le> j \<and> j < int (length (a ! nat i))
      then a ! nat i ! nat j else 0)"

definition window :: "int list list \<Rightarrow> nat \<times> nat \<Rightarrow> nat \<Rightarrow> nat \<Rightarrow> int list" where
  "window a fsize i j =
     concat (map (\<lambda>di. map (\<lambda>dj. pad_get a (int i + int di - int (fst fsize div 2))
                                            (int j + int dj - int (snd fsize div 2)))
                            [0..<snd fsize])
                 [0..<fst fsize])"

definition median_filter :: "int list list \<Rightarrow> nat \<times> nat \<Rightarrow> error + int list list" where
  "median_filter a fsize =
     (if fst fsize = 0 \<or> snd fsize = 0 then Inl RuntimeError
      else Inr (map (\<lambda>i. map (\<lambda>j. sort (window a fsize i j) ! ((fst fsize * snd fsize) div 2))
                              [0..<length (a ! i)])
                    [0..<length a]))"

subsection \<open>Floating point\<close>

text \<open>
  The standard deviation \<open>np.ma.std\<close>, the product \<open>threshold * std\<close> and the
  comparison of an integer difference with that product are computed by numpy in
  binary64. The stages are modelled for any such three operations over any carrier
  \<open>'f\<close>; \<open>exact_ops\<close> are the operations over the reals.
\<close>

record 'f np_ops =
  ma_std :: "int list \<Rightarrow> 'f"
  fmul :: "'f \<Rightarrow> 'f \<Rightarrow> 'f"
  gt :: "int \<Rightarrow> 'f \<Rightarrow> bool"

definition mean :: "int list \<Rightarrow> real" where
  "mean ds = real_of_int (sum_list ds) / real (length ds)"

definition std_dev :: "int list \<Rightarrow> real" where
  "std_dev ds =
     sqrt (sum_list (map (\<lambda>d. (real_of_int d - mean ds)\<^sup>2) ds) / real (length ds))"

definition exact_ops :: "real np_ops" where
  "exact_ops = \<lparr>ma_std = std_dev, fmul = (*), gt = (\<lambda>d x. real_of_int d > x)\<rparr>"

subsection \<open>Paths and names\<close>

text \<open>
  \<open>os.path.splitext\<close> (POSIX): the extension starts at the last dot of the last path
  component, unless only dots precede it there.
\<close>

definition rfind :: "string \<Rightarrow> char \<Rightarrow> int" where
  "rfind p c =
     (case filter (\<lambda>i. p ! i = c) (rev [0..<length p]) of [] \<Rightarrow> - 1 | i # _ \<Rightarrow> int i)"

definition splitext :: "string \<Rightarrow> string \<times> string" where
  "splitext p =
     (let sepIndex = rfind p CHR ''/''; dotIndex = rfind p CHR ''.''
      in if dotIndex > sepIndex \<and>
            list_ex (\<lambda>i. p ! i \<noteq> CHR ''.'') [nat (sepIndex + 1)..<nat dotIndex]
         then (take (nat dotIndex) p, drop (nat dotIndex) p)
         else (p, []))"

text \<open>
  \<open>re.findall('[A-Z][^A-Z]*', name)\<close>, \<open>str.lower\<close> on ASCII and \<open>'_'.join\<close>.
\<close>

definition is_upper :: "char \<Rightarrow> bool" where
  "is_upper c = ((65::nat) \<le> of_char c \<and> of_char c \<le> (90::nat))"

definition lower :: "string \<Rightarrow> string" where
  "lower s = map (\<lambda>c. if is_upper c then char_of (of_char c + (32::nat)) else c) s"

function findall_caps :: "string \<Rightarrow> string list" where
  "findall_caps [] = []"
| "findall_caps (c # cs) =
     (if is_upper c
      then (c # takeWhile (\<lambda>d. \<not> is_upper d) cs) #
           findall_caps (dropWhile (\<lambda>d. \<not> is_upper d) cs)
      else findall_caps cs)"
  by pat_completeness auto
termination
  by (relation "measure length") (auto simp: length_dropWhile_le less_Suc_eq_le)

fun join :: "string \<Rightarrow> string list \<Rightarrow> string" where
  "join sep [] = []"
| "join sep [x] = x"
| "join sep (x # y # xs) = x @ sep @ join sep (y # xs)"

section \<open>generate_pixel_mask\<close>

text \<open>
  \<open>occupancy.astype(np.int32)\<close>: the value modulo \<open>2^32\<close>, read as two's complement.
\<close>

definition astype_int32 :: "int \<Rightarrow> int" where
  "astype_int32 x = sint (word_of_int x :: 32 word)"

text \<open>
  The loop over the chunks: \<open>occupancy\<close> starts as \<open>None\<close>, takes the histogram of the
  first chunk and adds the histogram of every further one.
\<close>

definition add_arrays :: "int list list \<Rightarrow> int list list \<Rightarrow> int list list" where
  "add_arrays a b = map2 (map2 (+)) a b"

fun occupancy_loop ::
  "nat \<times> nat \<Rightarrow> hit list list \<Rightarrow> int list list option \<Rightarrow> error + int list list option" where
  "occupancy_loop n_pixel [] occupancy = Inr occupancy"
| "occupancy_loop n_pixel (hits # rest) occupancy =
     (case hist_2d_index (map (\<lambda>h. column h - 1) hits) (map (\<lambda>h. row h - 1) hits) n_pixel of
        Inl e \<Rightarrow> Inl e
      | Inr chunk_occ \<Rightarrow>
          occupancy_loop n_pixel rest
            (Some (case occupancy of None \<Rightarrow> chunk_occ | Some occ \<Rightarrow> add_arrays occ chunk_occ)))"

text \<open>
  Lines 55 to 75 of the source: the occupancy, the median filter, the difference, its
  standard deviation and the mask of the pixels above the threshold. With no chunk at
  all \<open>occupancy\<close> is still \<open>None\<close> at \<open>occupancy.astype\<close>.
\<close>

definition generate_pixel_mask_arrays ::
  "'f np_ops \<Rightarrow> nat \<times> nat \<Rightarrow> 'f \<Rightarrow> nat \<times> nat \<Rightarrow> hit list list
     \<Rightarrow> error + int list list \<times> bool list list" where
  "generate_pixel_mask_arrays ops n_pixel threshold filter_size chunks =
     (case occupancy_loop n_pixel chunks None of
        Inl e \<Rightarrow> Inl e
      | Inr None \<Rightarrow> Inl AttributeError
      | Inr (Some occupancy) \<Rightarrow>
          (case median_filter (map (map astype_int32) occupancy) filter_size of
             Inl e \<Rightarrow> Inl e
           | Inr blurred \<Rightarrow>
               (let difference = map2 (map2 (-)) occupancy blurred;
                    std = ma_std ops (concat difference);
                    abs_occ_threshold = fmul ops threshold std;
                    noisy_pixels_mask = map (map (\<lambda>d. gt ops d abs_occ_threshold)) difference
                in Inr (occupancy, noisy_pixels_mask))))"

definition default_mask_file :: "string \<Rightarrow> string \<Rightarrow> string" where
  "default_mask_file input_hits_file pixel_mask_name =
     fst (splitext input_hits_file) @ ''_'' @
     join ''_'' (map lower (findall_caps pixel_mask_name)) @ ''.h5''"

text \<open>
  The stage on the store. The hit file is read and closed before the mask file is
  opened for writing; the plot, when asked for, only reads the mask file. The result is
  the name of the mask file, or the exception, and the store as the call leaves it.
\<close>

definition generate_pixel_mask ::
  "'f np_ops \<Rightarrow> string \<Rightarrow> nat \<times> nat \<Rightarrow> string \<Rightarrow> string option \<Rightarrow> 'f \<Rightarrow> nat \<times> nat \<Rightarrow> nat
     \<Rightarrow> filesystem \<Rightarrow> (error + string) \<times> filesystem" where
  "generate_pixel_mask ops input_hits_file n_pixel pixel_mask_name output_mask_file
       threshold filter_size chunk_size fs =
     (let out = (case output_mask_file of
                   None \<Rightarrow> default_mask_file input_hits_file pixel_mask_name
                 | Some f \<Rightarrow> f)
      in case open_file_r fs input_hits_file of
           Inl e \<Rightarrow> (Inl e, fs)
         | Inr input_file_h5 \<Rightarrow>
             (case get_hits input_file_h5 of
                Inl e \<Rightarrow> (Inl e, fs)
              | Inr table \<Rightarrow>
                  (case generate_pixel_mask_arrays ops n_pixel threshold filter_size
                          (data_aligned_at_events table chunk_size) of
                     Inl e \<Rightarrow> (Inl e, fs)
                   | Inr (occupancy, noisy_pixels_mask) \<Rightarrow>
                       (case create_node [''HistOcc'' \<mapsto> IntArray occupancy] pixel_mask_name
                               (BoolArray noisy_pixels_mask) of
                          Inl e \<Rightarrow> (Inl e, fs(out \<mapsto> [''HistOcc'' \<mapsto> IntArray occupancy]))
                        | Inr out_file_h5 \<Rightarrow> (Inr out, fs(out \<mapsto> out_file_h5))))))"

section \<open>remove_noisy_pixels\<close>

text \<open>
  \<open>np.nonzero\<close> of a two-dimensional array, as index pairs in row-major order, and
  \<open>np.ravel_multi_index\<close>, which refuses an index outside \<open>dims\<close>.
\<close>

definition nonzero_array :: "bool list list \<Rightarrow> (nat \<times> nat) list" where
  "nonzero_array m =
     concat (map (\<lambda>c. map (\<lambda>r. (c, r)) (filter (\<lambda>r. m ! c ! r) [0..<length (m ! c)]))
                 [0..<length m])"

definition nonzero :: "node \<Rightarrow> error + (nat \<times> nat) list" where
  "nonzero n =
     (case n of
        BoolArray m \<Rightarrow> Inr (nonzero_array m)
      | IntArray a \<Rightarrow> Inr (nonzero_array (map (map (\<lambda>x. x \<noteq> 0)) a))
      | _ \<Rightarrow> Inl TypeError)"

definition ravel_multi_index :: "(int \<times> int) list \<Rightarrow> nat \<times> nat \<Rightarrow> error + int list" where
  "ravel_multi_index idx dims =
     (if list_all (in_shape dims) idx
      then Inr (map (\<lambda>p. fst p * int (snd dims) + snd p) idx)
      else Inl ValueError)"

text \<open>
  The loop over the chunks: the hits whose flat pixel index is not among the masked ones
  are appended to the output table. The exception of a chunk leaves the rows appended so
  far.
\<close>

fun select_loop ::
  "nat \<times> nat \<Rightarrow> int list \<Rightarrow> hit list list \<Rightarrow> hit list \<Rightarrow> error option \<times> hit list" where
  "select_loop n_pixel masked_pixels_1d [] hit_table_out = (None, hit_table_out)"
| "select_loop n_pixel masked_pixels_1d (hits # rest) hit_table_out =
     (case ravel_multi_index (map (\<lambda>h. (column h - 1, row h - 1)) hits) n_pixel of
        Inl e \<Rightarrow> (Some e, hit_table_out)
      | Inr hits_1d \<Rightarrow>
          select_loop n_pixel masked_pixels_1d rest
            (hit_table_out @
             map fst (filter (\<lambda>p. snd p \<notin> set masked_pixels_1d) (zip hits hits_1d))))"

text \<open>
  The stage on the store. The mask is generated into its default file and read back;
  the output file is opened for writing while the hit file is open for reading. The
  ratio of the row counts in the log line divides numpy integers, which raises nothing
  when no row is written.
\<close>

definition remove_noisy_pixels ::
  "'f np_ops \<Rightarrow> string \<Rightarrow> nat \<times> nat \<Rightarrow> string option \<Rightarrow> 'f \<Rightarrow> nat \<times> nat \<Rightarrow> nat
     \<Rightarrow> filesystem \<Rightarrow> (error + string) \<times> filesystem" where
  "remove_noisy_pixels ops input_hits_file n_pixel output_hits_file threshold filter_size
       chunk_size fs =
     (let out = (case output_hits_file of
                   None \<Rightarrow> fst (splitext input_hits_file) @ ''_noisy_pixels.h5''
                 | Some f \<Rightarrow> f)
      in case generate_pixel_mask ops input_hits_file n_pixel ''DisabledPixelMask'' None
                threshold filter_size chunk_size fs of
           (Inl e, fs1) \<Rightarrow> (Inl e, fs1)
         | (Inr output_mask_file, fs1) \<Rightarrow>
      (case open_file_r fs1 output_mask_file of Inl e \<Rightarrow> (Inl e, fs1) | Inr mask_file_h5 \<Rightarrow>
      (case get_node mask_file_h5 ''DisabledPixelMask'' of Inl e \<Rightarrow> (Inl e, fs1) | Inr pixel_mask \<Rightarrow>
      (case get_node mask_file_h5 ''HistOcc'' of Inl e \<Rightarrow> (Inl e, fs1) | Inr occupancy \<Rightarrow>
      (case nonzero pixel_mask of Inl e \<Rightarrow> (Inl e, fs1) | Inr masked_pixels \<Rightarrow>
      (case (if masked_pixels \<noteq> []
             then ravel_multi_index (map (\<lambda>p. (int (fst p), int (snd p))) masked_pixels) n_pixel
             else Inr []) of
         Inl e \<Rightarrow> (Inl e, fs1)
       | Inr masked_pixels_1d \<Rightarrow>
      (case open_file_r fs1 input_hits_file of Inl e \<Rightarrow> (Inl e, fs1) | Inr input_file_h5 \<Rightarrow>
      if out = input_hits_file then (Inl ValueError, fs1)
      else
      (case get_hits input_file_h5 of Inl e \<Rightarrow> (Inl e, fs1(out \<mapsto> Map.empty)) | Inr table \<Rightarrow>
      (case select_loop n_pixel masked_pixels_1d (data_aligned_at_events table chunk_size) [] of
         (Some e, hit_table_out) \<Rightarrow> (Inl e, fs1(out \<mapsto> [''Hits'' \<mapsto> HitTable hit_table_out]))
       | (None, hit_table_out) \<Rightarrow>
           (Inr out,
            fs1(out \<mapsto> [''Hits'' \<mapsto> HitTable hit_table_out, ''HistOcc'' \<mapsto> occupancy,
                         ''DisabledPixelMask'' \<mapsto> pixel_mask])))))))))))"

section \<open>cluster_hits\<close>

text \<open>
  \<open>HitClusterizer\<close> belongs to the package \<open>pixel_clusterizer\<close>. The stage is
  modelled for any clusterizer: a function that, built from the three cluster distances
  and the two charge bounds, maps the hits of a chunk and the two lists of masked pixels
  to the clusters of the chunk.
\<close>

type_synonym pixels = "(int \<times> int) list option"
type_synonym clusterizer = "hit list \<Rightarrow> pixels \<Rightarrow> pixels \<Rightarrow> cluster list"
type_synonym hit_clusterizer = "int \<Rightarrow> int \<Rightarrow> int \<Rightarrow> int \<Rightarrow> int option \<Rightarrow> clusterizer"

text \<open>
  \<open>np.all(np.diff(xs) >= 0)\<close> on an \<open>int64\<close> column: \<open>np.diff\<close> is
  \<open>xs[1:] - xs[:-1]\<close> in \<open>int64\<close> arithmetic, so each difference is taken modulo
  \<open>2^64\<close> and read as a signed number.
\<close>

definition np_diff :: "int list \<Rightarrow> int list" where
  "np_diff xs = map2 (\<lambda>a b. sint (word_of_int b - word_of_int a :: 64 word)) xs (tl xs)"

definition all_diff_ge_0 :: "int list \<Rightarrow> bool" where
  "all_diff_ge_0 xs = list_all (\<lambda>d. d \<ge> 0) (np_diff xs)"

text \<open>
  \<open>np.dstack(np.nonzero(mask))[0] + 1\<close> of the mask node of an optional mask file: the
  1-based pixels the mask flags.
\<close>

definition read_mask_pixels :: "filesystem \<Rightarrow> string option \<Rightarrow> string \<Rightarrow> error + pixels" where
  "read_mask_pixels fs mask_file name =
     (case mask_file of
        None \<Rightarrow> Inr None
      | Some path \<Rightarrow>
          (case open_file_r fs path of Inl e \<Rightarrow> Inl e | Inr input_file_h5 \<Rightarrow>
          (case get_node input_file_h5 name of Inl e \<Rightarrow> Inl e | Inr mask_node \<Rightarrow>
          (case nonzero mask_node of Inl e \<Rightarrow> Inl e
           | Inr px \<Rightarrow> Inr (Some (map (\<lambda>p. (int (fst p) + 1, int (snd p) + 1)) px))))))"

text \<open>
  The loop over the chunks: both monotonicity checks, then the clusters of the chunk are
  appended. A failed check leaves the rows appended so far.
\<close>

fun cluster_loop ::
  "clusterizer \<Rightarrow> pixels \<Rightarrow> pixels \<Rightarrow> hit list list \<Rightarrow> cluster list
     \<Rightarrow> error option \<times> cluster list" where
  "cluster_loop clusterizer noisy_pixels disabled_pixels [] cluster_table_out =
     (None, cluster_table_out)"
| "cluster_loop clusterizer noisy_pixels disabled_pixels (hits # rest) cluster_table_out =
     (if \<not> all_diff_ge_0 (map event_number hits) then (Some RuntimeError, cluster_table_out)
      else if \<not> all_diff_ge_0
                  (map cl_event_number (clusterizer hits noisy_pixels disabled_pixels))
      then (Some RuntimeError, cluster_table_out)
      else cluster_loop clusterizer noisy_pixels disabled_pixels rest
             (cluster_table_out @ clusterizer hits noisy_pixels disabled_pixels))"

text \<open>
  The stage on the store. The two mask files are read and closed first. The cluster
  file is opened for writing, at its final path, while the hit file is open for reading,
  and the \<open>Cluster\<close> table is created before the \<open>Hits\<close> table is looked up.
\<close>

definition cluster_hits ::
  "hit_clusterizer \<Rightarrow> string \<Rightarrow> string option \<Rightarrow> string option \<Rightarrow> string option
     \<Rightarrow> int \<Rightarrow> int option \<Rightarrow> int \<Rightarrow> int \<Rightarrow> int \<Rightarrow> nat
     \<Rightarrow> filesystem \<Rightarrow> (error + string) \<times> filesystem" where
  "cluster_hits HitClusterizer input_hits_file output_cluster_file
       input_disabled_pixel_mask_file input_noisy_pixel_mask_file min_hit_charge max_hit_charge
       column_cluster_distance row_cluster_distance frame_cluster_distance chunk_size fs =
     (let out = (case output_cluster_file of
                   None \<Rightarrow> fst (splitext input_hits_file) @ ''_cluster.h5''
                 | Some f \<Rightarrow> f)
      in case read_mask_pixels fs input_disabled_pixel_mask_file ''DisabledPixelMask'' of
           Inl e \<Rightarrow> (Inl e, fs)
         | Inr disabled_pixels \<Rightarrow>
      (case read_mask_pixels fs input_noisy_pixel_mask_file ''NoisyPixelMask'' of
         Inl e \<Rightarrow> (Inl e, fs)
       | Inr noisy_pixels \<Rightarrow>
      (case open_file_r fs input_hits_file of Inl e \<Rightarrow> (Inl e, fs) | Inr input_file_h5 \<Rightarrow>
      if out = input_hits_file then (Inl ValueError, fs)
      else
      (case get_hits input_file_h5 of
         Inl e \<Rightarrow> (Inl e, fs(out \<mapsto> [''Cluster'' \<mapsto> ClusterTable []]))
       | Inr table \<Rightarrow>
      (case cluster_loop
              (HitClusterizer column_cluster_distance row_cluster_distance
                 frame_cluster_distance min_hit_charge max_hit_charge)
              noisy_pixels disabled_pixels (data_aligned_at_events table chunk_size) [] of
         (Some e, cluster_table_out) \<Rightarrow>
           (Inl e, fs(out \<mapsto> [''Cluster'' \<mapsto> ClusterTable cluster_table_out]))
       | (None, cluster_table_out) \<Rightarrow>
           (Inr out, fs(out \<mapsto> [''Cluster'' \<mapsto> ClusterTable cluster_table_out])))))))"

text \<open>
  The parameters of \<open>cluster_hits\<close>, as its signature lists them, and the check a call
  with keyword arguments makes: a keyword that names no parameter is a \<open>TypeError\<close>.
\<close>

definition cluster_hits_parameters :: "string list" where
  "cluster_hits_parameters =
     [''input_hits_file'', ''output_cluster_file'', ''input_disabled_pixel_mask_file'',
      ''input_noisy_pixel_mask_file'', ''min_hit_charge'', ''max_hit_charge'',
      ''column_cluster_distance'', ''row_cluster_distance'', ''frame_cluster_distance'',
      ''dut_name'', ''plot'', ''chunk_size'']"

definition check_keywords :: "string list \<Rightarrow> string list \<Rightarrow> error option" where
  "check_keywords parameters keywords =
     (if list_all (\<lambda>k. k \<in> set parameters) keywords then None else Some TypeError)"

subsection \<open>A clusterizer after the spec\<close>

text \<open>
  Modelled from the spec: the clusterizer itself is not among the sources. The spec has
  the hits processed by event; a hit whose charge is outside the bounds, or whose pixel is
  masked, is excluded; within an event two hits are adjacent when their column, row and
  frame distances are within the thresholds, and a cluster is a connected component of
  adjacency. A cluster reports its hit count, its summed charge, the column and row of
  its hit of highest charge (the first one, on a tie) and its charge-weighted centroid
  (none when the charges sum to 0).
\<close>

definition surviving :: "int \<Rightarrow> int option \<Rightarrow> pixels \<Rightarrow> pixels \<Rightarrow> hit \<Rightarrow> bool" where
  "surviving min_hit_charge max_hit_charge noisy_pixels disabled_pixels h =
     (min_hit_charge \<le> charge h \<and>
      (case max_hit_charge of None \<Rightarrow> True | Some m \<Rightarrow> charge h \<le> m) \<and>
      (case noisy_pixels of None \<Rightarrow> True | Some px \<Rightarrow> (column h, row h) \<notin> set px) \<and>
      (case disabled_pixels of None \<Rightarrow> True | Some px \<Rightarrow> (column h, row h) \<notin> set px))"

definition adjacent :: "int \<Rightarrow> int \<Rightarrow> int \<Rightarrow> hit \<Rightarrow> hit \<Rightarrow> bool" where
  "adjacent max_x max_y max_t g h =
     (\<bar>column g - column h\<bar> \<le> max_x \<and> \<bar>row g - row h\<bar> \<le> max_y \<and> \<bar>frame g - frame h\<bar> \<le> max_t)"

definition insert_hit :: "(hit \<Rightarrow> hit \<Rightarrow> bool) \<Rightarrow> hit list list \<Rightarrow> hit \<Rightarrow> hit list list" where
  "insert_hit adj comps h =
     filter (\<lambda>c. \<not> list_ex (adj h) c) comps @
     [concat (filter (\<lambda>c. list_ex (adj h) c) comps) @ [h]]"

definition connected_components :: "(hit \<Rightarrow> hit \<Rightarrow> bool) \<Rightarrow> hit list \<Rightarrow> hit list list" where
  "connected_components adj hits = foldl (insert_hit adj) [] hits"

function group_events :: "hit list \<Rightarrow> (int \<times> hit list) list" where
  "group_events [] = []"
| "group_events (h # hs) =
     (event_number h, h # takeWhile (\<lambda>g. event_number g = event_number h) hs) #
     group_events (dropWhile (\<lambda>g. event_number g = event_number h) hs)"
  by pat_completeness auto
termination
  by (relation "measure length") (auto simp: length_dropWhile_le less_Suc_eq_le)

fun seed_hit :: "hit \<Rightarrow> hit list \<Rightarrow> hit" where
  "seed_hit s [] = s"
| "seed_hit s (h # hs) = seed_hit (if charge h > charge s then h else s) hs"

definition centroid :: "(hit \<Rightarrow> int) \<Rightarrow> hit list \<Rightarrow> rat option" where
  "centroid coord hs =
     (if sum_list (map charge hs) = 0 then None
      else Some (of_int (sum_list (map (\<lambda>h. charge h * coord h) hs)) /
                 of_int (sum_list (map charge hs))))"

fun make_cluster :: "int \<Rightarrow> nat \<Rightarrow> hit list \<Rightarrow> cluster" where
  "make_cluster ev i [] =
     \<lparr>cl_event_number = ev, ID = i, n_hits = 0, cl_charge = 0, seed_column = 0, seed_row = 0,
      mean_column = None, mean_row = None\<rparr>"
| "make_cluster ev i (h # hs) =
     \<lparr>cl_event_number = ev, ID = i, n_hits = Suc (length hs),
      cl_charge = sum_list (map charge (h # hs)),
      seed_column = column (seed_hit h hs), seed_row = row (seed_hit h hs),
      mean_column = centroid column (h # hs), mean_row = centroid row (h # hs)\<rparr>"

definition event_clusters ::
  "(hit \<Rightarrow> hit \<Rightarrow> bool) \<Rightarrow> (hit \<Rightarrow> bool) \<Rightarrow> int \<times> hit list \<Rightarrow> cluster list" where
  "event_clusters adj keep g =
     map (\<lambda>p. make_cluster (fst g) (fst p) (snd p))
         (enumerate 0 (connected_components adj (filter keep (snd g))))"

definition spec_clusterizer :: hit_clusterizer where
  "spec_clusterizer column_cluster_distance row_cluster_distance frame_cluster_distance
       min_hit_charge max_hit_charge hits noisy_pixels disabled_pixels =
     concat (map (event_clusters
                    (adjacent column_cluster_distance row_cluster_distance frame_cluster_distance)
                    (surviving min_hit_charge max_hit_charge noisy_pixels disabled_pixels))
                 (group_events hits))"

section \<open>Notions the properties are stated with\<close>

text \<open>
  A hit of the pixel grid, the number of hits of a table on a pixel (1-based), the
  occupancy array these counts make, and the differences between an occupancy and its
  smoothed version, over all pixels.
\<close>

definition in_grid :: "nat \<times> nat \<Rightarrow> hit \<Rightarrow> bool" where
  "in_grid n_pixel h =
     (1 \<le> column h \<and> column h \<le> int (fst n_pixel) \<and> 1 \<le> row h \<and> row h \<le> int (snd n_pixel))"

definition hit_count :: "hit list \<Rightarrow> int \<Rightarrow> int \<Rightarrow> int" where
  "hit_count table c r = int (length (filter (\<lambda>h. column h = c \<and> row h = r) table))"

definition occupancy_of :: "nat \<times> nat \<Rightarrow> hit list \<Rightarrow> int list list" where
  "occupancy_of n_pixel table =
     map (\<lambda>c. map (\<lambda>r. hit_count table (int c + 1) (int r + 1)) [0..<snd n_pixel])
         [0..<fst n_pixel]"

definition difference_of :: "int list list \<Rightarrow> int list list \<Rightarrow> nat \<times> nat \<Rightarrow> int list" where
  "difference_of occupancy smoothed n_pixel =
     concat (map (\<lambda>c. map (\<lambda>r. occupancy ! c ! r - smoothed ! c ! r) [0..<snd n_pixel])
                 [0..<fst n_pixel])"

text \<open>Hits and a hit table for the examples.\<close>

definition pixel_hit :: "int \<Rightarrow> int \<Rightarrow> int \<Rightarrow> hit" where
  "pixel_hit e c r = \<lparr>event_number = e, frame = 0, column = c, row = r, charge = 1\<rparr>"

definition example_hits :: "hit list" where
  "example_hits = [pixel_hit 0 1 1, pixel_hit 0 1 2, pixel_hit 1 1 1, pixel_hit 2 1 2]"

text \<open>
  The two monotonicity checks of \<open>cluster_hits\<close> on one chunk, and the output paths of
  the three stages: the path given, or the default derived from the input path.
\<close>

definition chunk_passes :: "clusterizer \<Rightarrow> pixels \<Rightarrow> pixels \<Rightarrow> hit list \<Rightarrow> bool" where
  "chunk_passes clusterizer noisy_pixels disabled_pixels hits =
     (all_diff_ge_0 (map event_number hits) \<and>
      all_diff_ge_0 (map cl_event_number (clusterizer hits noisy_pixels disabled_pixels)))"

definition cluster_file :: "string \<Rightarrow> string option \<Rightarrow> string" where
  "cluster_file input_hits_file output_cluster_file =
     (case output_cluster_file of
        None \<Rightarrow> fst (splitext input_hits_file) @ ''_cluster.h5'' | Some f \<Rightarrow> f)"

definition mask_file :: "string \<Rightarrow> string \<Rightarrow> string option \<Rightarrow> string" where
  "mask_file input_hits_file pixel_mask_name output_mask_file =
     (case output_mask_file of
        None \<Rightarrow> default_mask_file input_hits_file pixel_mask_name | Some f \<Rightarrow> f)"

definition hits_file :: "string \<Rightarrow> string option \<Rightarrow> string" where
  "hits_file input_hits_file output_hits_file =
     (case output_hits_file of
        None \<Rightarrow> fst (splitext input_hits_file) @ ''_noisy_pixels.h5'' | Some f \<Rightarrow> f)"

definition noisy_hits :: "hit list" where
  "noisy_hits =
     [pixel_hit 0 1 1, pixel_hit 0 1 2, pixel_hit 0 2 1, pixel_hit 1 1 1, pixel_hit 1 1 2,
      pixel_hit 1 2 2, pixel_hit 2 1 1, pixel_hit 2 1 2]"

definition decreasing_hits :: "hit list" where
  "decreasing_hits = [pixel_hit 1 1 1, pixel_hit 1 1 2, pixel_hit 0 1 1, pixel_hit 0 1 2]"


definition failing_hits :: "hit list" where
  "failing_hits = [pixel_hit 0 1 1, pixel_hit 0 1 2, pixel_hit 2 1 1, pixel_hit 1 1 1]"

definition pair_cluster :: "int \<Rightarrow> cluster" where
  "pair_cluster e =
     \<lparr>cl_event_number = e, ID = 0, n_hits = 2, cl_charge = 2, seed_column = 1, seed_row = 1,
      mean_column = Some 1, mean_row = Some (3 / 2)\<rparr>"

definition single_cluster :: "int \<Rightarrow> int \<Rightarrow> int \<Rightarrow> cluster" where
  "single_cluster e c r =
     \<lparr>cl_event_number = e, ID = 0, n_hits = 1, cl_charge = 1, seed_column = c, seed_row = r,
      mean_column = Some (of_int c), mean_row = Some (of_int r)\<rparr>"

section \<open>Properties of generate_pixel_mask\<close>

subsection \<open>The reader and the occupancy\<close>

lemma concat_data_aligned_at_events:
  "0 < chunk_size \<Longrightarrow> concat (data_aligned_at_events table chunk_size) = table"
proof (induction table chunk_size rule: data_aligned_at_events.induct)
  case (1 table chunk_size)
  show ?case
  proof (cases "table = []")
    case True
    then show ?thesis by (simp add: data_aligned_at_events.simps)
  next
    case False
    with 1 have "concat (data_aligned_at_events (drop (chunk_stop table chunk_size) table) chunk_size)
        = drop (chunk_stop table chunk_size) table"
      by simp
    with False 1(2) show ?thesis
      by (subst data_aligned_at_events.simps) simp
  qed
qed

lemma data_aligned_at_events_eq_Nil:
  "0 < chunk_size \<Longrightarrow> data_aligned_at_events table chunk_size = [] \<longleftrightarrow> table = []"
  by (subst data_aligned_at_events.simps) simp

lemma count_zip:
  "length (filter (\<lambda>p. p = (c, r)) (zip (map (\<lambda>h. column h - 1) hits) (map (\<lambda>h. row h - 1) hits)))
   = length (filter (\<lambda>h. column h = c + 1 \<and> row h = r + 1) hits)"
  by (induction hits) auto

lemma in_shape_zip:
  "list_all (in_shape n) (zip (map (\<lambda>h. column h - 1) hits) (map (\<lambda>h. row h - 1) hits))
   = list_all (in_grid n) hits"
  by (induction hits) (auto simp: in_shape_def in_grid_def)

lemma hist_2d_index_hits:
  "list_all (in_grid n) hits \<Longrightarrow>
   hist_2d_index (map (\<lambda>h. column h - 1) hits) (map (\<lambda>h. row h - 1) hits) n = Inr (occupancy_of n hits)"
  by (simp add: hist_2d_index_def in_shape_zip occupancy_of_def hit_count_def count_zip)

lemma add_arrays_occupancy_of:
  "add_arrays (occupancy_of n a) (occupancy_of n b) = occupancy_of n (a @ b)"
  by (auto simp: add_arrays_def occupancy_of_def hit_count_def list_eq_iff_nth_eq)

lemma occupancy_loop_Some:
  "list_all (in_grid n) (concat chunks) \<Longrightarrow>
   occupancy_loop n chunks (Some (occupancy_of n acc)) = Inr (Some (occupancy_of n (acc @ concat chunks)))"
  by (induction chunks arbitrary: acc) (simp_all add: hist_2d_index_hits add_arrays_occupancy_of)

lemma occupancy_loop_None:
  "list_all (in_grid n) (concat chunks) \<Longrightarrow> chunks \<noteq> [] \<Longrightarrow>
   occupancy_loop n chunks None = Inr (Some (occupancy_of n (concat chunks)))"
  using occupancy_loop_Some [of n "tl chunks" "hd chunks"]
  by (cases chunks) (simp_all add: hist_2d_index_hits)

lemma astype_int32_id: "0 \<le> x \<Longrightarrow> x < 2 ^ 31 \<Longrightarrow> astype_int32 x = x"
  unfolding astype_int32_def
  by (simp add: sint_sbintrunc' signed_take_bit_int_eq_self)


lemma hit_count_le: "hit_count table c r \<le> int (length table)"
  by (simp add: hit_count_def)

lemma hit_count_ge_0: "0 \<le> hit_count table c r"
  by (simp add: hit_count_def)

lemma astype_occupancy_of:
  "length table < 2 ^ 31 \<Longrightarrow> map (map astype_int32) (occupancy_of n table) = occupancy_of n table"
proof -
  assume len: "length table < 2 ^ 31"
  have "astype_int32 (hit_count table c r) = hit_count table c r" for c r
  proof (rule astype_int32_id)
    show "0 \<le> hit_count table c r" by (rule hit_count_ge_0)
    have "hit_count table c r \<le> int (length table)" by (rule hit_count_le)
    also have "\<dots> < 2 ^ 31" using len by simp
    finally show "hit_count table c r < 2 ^ 31" .
  qed
  then show ?thesis by (simp add: occupancy_of_def)
qed

lemma length_occupancy_of: "length (occupancy_of n table) = fst n"
  by (simp add: occupancy_of_def)

lemma length_occupancy_of_nth: "c < fst n \<Longrightarrow> length (occupancy_of n table ! c) = snd n"
  by (simp add: occupancy_of_def)


lemma median_filter_shape:
  assumes "median_filter a fsize = Inr b"
  shows "length b = length a" and "c < length a \<Longrightarrow> length (b ! c) = length (a ! c)"
  using assms by (auto simp: median_filter_def split: if_splits)

lemma median_filter_positive:
  "0 < fst fsize \<Longrightarrow> 0 < snd fsize \<Longrightarrow> \<exists>b. median_filter a fsize = Inr b"
  by (simp add: median_filter_def)

lemma map2_minus_eq:
  assumes "length a = nc" "length b = nc"
    and "\<And>c. c < nc \<Longrightarrow> length (a ! c) = nr \<and> length (b ! c) = nr"
  shows "map2 (map2 (-)) a b = map (\<lambda>c. map (\<lambda>r. a ! c ! r - b ! c ! (r::nat)) [0..<nr]) [0..<nc]"
    (is "?l = ?r")
proof (rule nth_equalityI)
  show "length ?l = length ?r" using assms by simp
next
  fix c assume "c < length ?l"
  then have c: "c < nc" using assms by simp
  then have "?l ! c = map2 (-) (a ! c) (b ! c)" using assms by simp
  also have "\<dots> = map (\<lambda>r. a ! c ! r - b ! c ! r) [0..<nr]"
    using assms(3) [OF c] by (auto intro!: nth_equalityI)
  finally show "?l ! c = ?r ! c" using c by simp
qed

lemma generate_pixel_mask_arrays_chunks:
  assumes "chunks \<noteq> []" "list_all (in_grid n_pixel) (concat chunks)"
    and "length (concat chunks) < 2 ^ 31" "0 < fst filter_size" "0 < snd filter_size"
  shows "\<exists>smoothed.
     median_filter (occupancy_of n_pixel (concat chunks)) filter_size = Inr smoothed \<and>
     generate_pixel_mask_arrays ops n_pixel threshold filter_size chunks =
       Inr (occupancy_of n_pixel (concat chunks),
            map (\<lambda>c. map (\<lambda>r. gt ops (occupancy_of n_pixel (concat chunks) ! c ! r - smoothed ! c ! r)
                          (fmul ops threshold
                             (ma_std ops (difference_of (occupancy_of n_pixel (concat chunks)) smoothed n_pixel))))
                     [0..<snd n_pixel]) [0..<fst n_pixel])"
proof -
  let ?occ = "occupancy_of n_pixel (concat chunks)"
  obtain smoothed where sm: "median_filter ?occ filter_size = Inr smoothed"
    using median_filter_positive [OF assms(4,5)] by blast
  have shape: "length ?occ = fst n_pixel" "length smoothed = fst n_pixel"
    "\<And>c. c < fst n_pixel \<Longrightarrow> length (?occ ! c) = snd n_pixel \<and> length (smoothed ! c) = snd n_pixel"
    using median_filter_shape [OF sm] by (simp_all add: length_occupancy_of length_occupancy_of_nth)
  have diff: "map2 (map2 (-)) ?occ smoothed =
      map (\<lambda>c. map (\<lambda>r. ?occ ! c ! r - smoothed ! c ! r) [0..<snd n_pixel]) [0..<fst n_pixel]"
    by (rule map2_minus_eq [OF shape])
  have "generate_pixel_mask_arrays ops n_pixel threshold filter_size chunks =
      Inr (?occ, map (map (\<lambda>d. gt ops d (fmul ops threshold (ma_std ops (concat (map2 (map2 (-)) ?occ smoothed))))))
                     (map2 (map2 (-)) ?occ smoothed))"
    by (simp add: generate_pixel_mask_arrays_def occupancy_loop_None [OF assms(2,1)]
        astype_occupancy_of [OF assms(3)] sm Let_def)
  also have "concat (map2 (map2 (-)) ?occ smoothed) = difference_of ?occ smoothed n_pixel"
    by (simp only: diff difference_of_def)
  finally show ?thesis using sm by (simp add: diff comp_def)
qed


lemma rfind_ge_0:
  assumes "0 \<le> rfind p c"
  shows "nat (rfind p c) < length p \<and> p ! nat (rfind p c) = c"
proof (cases "filter (\<lambda>i. p ! i = c) (rev [0..<length p])")
  case Nil
  with assms show ?thesis by (simp add: rfind_def)
next
  case (Cons i rest)
  then have "i \<in> set (filter (\<lambda>i. p ! i = c) (rev [0..<length p]))" by simp
  then have "i < length p \<and> p ! i = c" by simp
  moreover have "rfind p c = int i" using Cons by (simp add: rfind_def)
  ultimately show ?thesis by simp
qed

lemma splitext_append: "fst (splitext p) @ snd (splitext p) = p"
  by (simp add: splitext_def Let_def)

lemma splitext_ext: "snd (splitext p) = [] \<or> hd (snd (splitext p)) = CHR ''.''"
proof (cases "rfind p CHR ''/'' < rfind p CHR ''.'' \<and>
    list_ex (\<lambda>i. p ! i \<noteq> CHR ''.'') [nat (rfind p CHR ''/'' + 1)..<nat (rfind p CHR ''.'')]")
  case True
  then have "0 \<le> rfind p CHR ''.''"
    by (auto simp: list_ex_iff)
  from rfind_ge_0 [OF this] have "hd (drop (nat (rfind p CHR ''.'')) p) = CHR ''.''"
    by (simp add: hd_drop_conv_nth)
  with True show ?thesis by (simp add: splitext_def Let_def)
next
  case False
  then show ?thesis by (auto simp: splitext_def Let_def)
qed

lemma splitext_underscore_neq: "fst (splitext p) @ CHR ''_'' # s \<noteq> p"
proof
  assume "fst (splitext p) @ CHR ''_'' # s = p"
  then have "fst (splitext p) @ CHR ''_'' # s = fst (splitext p) @ snd (splitext p)"
    by (simp add: splitext_append)
  then have "snd (splitext p) = CHR ''_'' # s" by simp
  with splitext_ext [of p] show False by auto
qed

lemma default_mask_file_neq: "default_mask_file input_hits_file pixel_mask_name \<noteq> input_hits_file"
  by (simp add: default_mask_file_def splitext_underscore_neq)

lemma generate_pixel_mask_run:
  assumes "fs input_hits_file = Some input_file_h5" "input_file_h5 ''Hits'' = Some (HitTable table)"
    and "generate_pixel_mask_arrays ops n_pixel threshold filter_size
           (data_aligned_at_events table chunk_size) = Inr (occupancy, noisy_pixels_mask)"
    and "pixel_mask_name \<noteq> ''HistOcc''"
  shows "generate_pixel_mask ops input_hits_file n_pixel pixel_mask_name output_mask_file
           threshold filter_size chunk_size fs =
         (Inr (case output_mask_file of
                 None \<Rightarrow> default_mask_file input_hits_file pixel_mask_name | Some f \<Rightarrow> f),
          fs((case output_mask_file of
                 None \<Rightarrow> default_mask_file input_hits_file pixel_mask_name | Some f \<Rightarrow> f) \<mapsto>
               [''HistOcc'' \<mapsto> IntArray occupancy, pixel_mask_name \<mapsto> BoolArray noisy_pixels_mask]))"
  using assms
  by (simp add: generate_pixel_mask_def open_file_r_def get_hits_def create_node_def Let_def)



lemma example_chunks:
  "data_aligned_at_events example_hits 1000000 = [example_hits]"
  by (simp add: data_aligned_at_events.simps chunk_stop_def example_hits_def)

lemma example_std: "std_dev [2, 2, 0, 0] = 1"
  by (simp add: std_dev_def mean_def power2_eq_square)

lemma example_occupancy: "occupancy_loop (2, 2) [example_hits] None = Inr (Some [[2, 2], [0, 0]])"
  by code_simp

lemma example_median: "median_filter [[astype_int32 2, astype_int32 2], [astype_int32 0, astype_int32 0]] (3, 3) = Inr [[0, 0], [0, 0]]"
  by code_simp

lemma example_arrays:
  "generate_pixel_mask_arrays exact_ops (2, 2) 1 (3, 3) [example_hits] =
     Inr ([[2, 2], [0, 0]], [[True, True], [False, False]])"
  unfolding generate_pixel_mask_arrays_def example_occupancy
  by (simp add: example_median exact_ops_def example_std)

lemma example_mask_file: "default_mask_file ''hits.h5'' ''NoisyPixelMask'' = ''hits_noisy_pixel_mask.h5''"
  by code_simp

lemma generate_pixel_mask_example:
  "generate_pixel_mask exact_ops ''hits.h5'' (2, 2) ''NoisyPixelMask'' None 1 (3, 3) 1000000
       [''hits.h5'' \<mapsto> [''Hits'' \<mapsto> HitTable example_hits]]
   = (Inr ''hits_noisy_pixel_mask.h5'',
      [''hits.h5'' \<mapsto> [''Hits'' \<mapsto> HitTable example_hits],
       ''hits_noisy_pixel_mask.h5'' \<mapsto> [''HistOcc'' \<mapsto> IntArray [[2, 2], [0, 0]],
           ''NoisyPixelMask'' \<mapsto> BoolArray [[True, True], [False, False]]]])"
  by (simp add: generate_pixel_mask_def example_mask_file open_file_r_def get_hits_def
      example_chunks example_arrays create_node_def Let_def)


subsection \<open>A hit table without rows\<close>

lemma data_aligned_at_events_Nil: "data_aligned_at_events [] chunk_size = []"
  by (simp add: data_aligned_at_events.simps)

text \<open>
  C3. The claim has an empty hit table give an empty mask without an error. On a hit
  file whose \<open>Hits\<close> table has no row the loop over the chunks never runs,
  \<open>occupancy\<close> stays \<open>None\<close>, the call raises \<open>AttributeError\<close> and no mask file
  is written.
\<close>

theorem generate_pixel_mask_no_hits:
  "generate_pixel_mask ops ''hits.h5'' (2, 2) ''NoisyPixelMask'' None threshold (3, 3) 1000000
       [''hits.h5'' \<mapsto> [''Hits'' \<mapsto> HitTable []]]
   = (Inl AttributeError, [''hits.h5'' \<mapsto> [''Hits'' \<mapsto> HitTable []]])"
  by (simp add: generate_pixel_mask_def open_file_r_def get_hits_def
      generate_pixel_mask_arrays_def data_aligned_at_events_Nil)

section \<open>Properties of cluster_hits and of the store\<close>

lemma int64_id: "- (2 ^ 63) \<le> k \<Longrightarrow> k < 2 ^ 63 \<Longrightarrow> sint (word_of_int k :: 64 word) = k"
  by (simp add: sint_sbintrunc' signed_take_bit_int_eq_self)

lemma int64_diff:
  assumes "y - x < 2 ^ 63" "x - y < 2 ^ 63"
  shows "sint (word_of_int y - word_of_int x :: 64 word) = y - x"
proof -
  have "sint (word_of_int (y - x) :: 64 word) = y - x"
    using assms by (intro int64_id) simp_all
  then show ?thesis by simp
qed

text \<open>
  At the ends of the \<open>int64\<close> range the check differs from the order: the
  difference of \<open>-2^63\<close> and \<open>2^63 - 1\<close> wraps to \<open>-1\<close>, and back to 1 the
  other way round.
\<close>

lemma all_diff_ge_0_wraps:
  "\<not> all_diff_ge_0 [- (2 ^ 63), 2 ^ 63 - 1] \<and> all_diff_ge_0 [2 ^ 63 - 1, - (2 ^ 63)]"
  by code_simp

text \<open>
  Where no difference of two elements reaches \<open>2^63\<close>, the check is the test for a
  list that never decreases.
\<close>

lemma all_diff_ge_0_sorted:
  assumes "\<forall>x\<in>set xs. \<forall>y\<in>set xs. y - x < 2 ^ 63"
  shows "all_diff_ge_0 xs \<longleftrightarrow> sorted xs"
  using assms
proof (induction xs rule: induct_list012)
  case 1
  then show ?case by (simp add: all_diff_ge_0_def np_diff_def)
next
  case (2 x)
  then show ?case by (simp add: all_diff_ge_0_def np_diff_def)
next
  case (3 x y zs)
  from "3.prems" have d: "y - x < 2 ^ 63" "x - y < 2 ^ 63" by simp_all
  from "3.prems" have "\<forall>a\<in>set (y # zs). \<forall>b\<in>set (y # zs). b - a < 2 ^ 63" by simp
  then have ih: "all_diff_ge_0 (y # zs) \<longleftrightarrow> sorted (y # zs)" by (rule "3.IH")
  have "all_diff_ge_0 (x # y # zs) \<longleftrightarrow> 0 \<le> y - x \<and> all_diff_ge_0 (y # zs)"
    by (simp add: all_diff_ge_0_def np_diff_def int64_diff [OF d])
  also have "\<dots> \<longleftrightarrow> sorted (x # y # zs)"
    unfolding ih by auto
  finally show ?case .
qed

lemma cluster_loop_eq:
  "cluster_loop cl noisy dis chunks acc =
     (if list_all (chunk_passes cl noisy dis) chunks then None else Some RuntimeError,
      acc @ concat (map (\<lambda>hits. cl hits noisy dis) (takeWhile (chunk_passes cl noisy dis) chunks)))"
  by (induction chunks arbitrary: acc) (auto simp: chunk_passes_def)

lemma read_mask_pixels_None: "read_mask_pixels fs None name = Inr None"
  by (simp add: read_mask_pixels_def)

lemma cluster_hits_run:
  assumes "fs input_hits_file = Some input_file_h5"
    and "input_file_h5 ''Hits'' = Some (HitTable table)"
    and "read_mask_pixels fs disabled_file ''DisabledPixelMask'' = Inr disabled_pixels"
    and "read_mask_pixels fs noisy_file ''NoisyPixelMask'' = Inr noisy_pixels"
    and "cluster_file input_hits_file output_cluster_file \<noteq> input_hits_file"
  shows "cluster_hits HC input_hits_file output_cluster_file disabled_file noisy_file
           min_hit_charge max_hit_charge cd rd fd chunk_size fs =
     (if list_all (chunk_passes (HC cd rd fd min_hit_charge max_hit_charge) noisy_pixels disabled_pixels)
           (data_aligned_at_events table chunk_size)
      then Inr (cluster_file input_hits_file output_cluster_file) else Inl RuntimeError,
      fs(cluster_file input_hits_file output_cluster_file \<mapsto>
           [''Cluster'' \<mapsto> ClusterTable
              (concat (map (\<lambda>hits. HC cd rd fd min_hit_charge max_hit_charge hits noisy_pixels disabled_pixels)
                 (takeWhile (chunk_passes (HC cd rd fd min_hit_charge max_hit_charge) noisy_pixels disabled_pixels)
                    (data_aligned_at_events table chunk_size))))]))"
  using assms
  by (simp add: cluster_hits_def cluster_file_def open_file_r_def get_hits_def cluster_loop_eq Let_def)

lemma cluster_file_default_neq: "cluster_file input_hits_file None \<noteq> input_hits_file"
  by (simp add: cluster_file_def splitext_underscore_neq)

lemma group_events_concat: "concat (map snd (group_events hs)) = hs"
  by (induction hs rule: group_events.induct) simp_all

lemma group_events_event:
  "(e, g) \<in> set (group_events hs) \<Longrightarrow> h \<in> set g \<Longrightarrow> event_number h = e"
  by (induction hs rule: group_events.induct) (auto dest: set_takeWhileD)

lemma group_events_fst: "e \<in> fst ` set (group_events hs) \<Longrightarrow> e \<in> event_number ` set hs"
  by (induction hs rule: group_events.induct) (auto dest: set_dropWhileD)

lemma group_events_sorted:
  "sorted (map event_number hs) \<Longrightarrow> sorted (map fst (group_events hs))"
proof (induction hs rule: group_events.induct)
  case 1
  then show ?case by simp
next
  case (2 h hs)
  let ?rest = "dropWhile (\<lambda>g. event_number g = event_number h) hs"
  have "sorted (map event_number ?rest)"
    using 2(2) by (simp add: sorted_dropWhile dropWhile_map [symmetric] comp_def sorted_wrt_map sorted_wrt_dropWhile)
  then have "sorted (map fst (group_events ?rest))" by (rule 2(1))
  moreover have "event_number h \<le> e" if "e \<in> fst ` set (group_events ?rest)" for e
  proof -
    from group_events_fst [OF that] obtain g where "g \<in> set ?rest" "e = event_number g" by auto
    then have "g \<in> set hs" by (auto dest: set_dropWhileD)
    with 2(2) \<open>e = event_number g\<close> show ?thesis by auto
  qed
  ultimately show ?case by auto
qed

lemma insert_hit_not_Nil: "insert_hit adj comps h \<noteq> []"
  by (simp add: insert_hit_def)

lemma connected_components_not_Nil: "hits \<noteq> [] \<Longrightarrow> connected_components adj hits \<noteq> []"
  by (cases hits rule: rev_cases) (simp_all add: connected_components_def insert_hit_not_Nil)

lemma cl_event_number_make_cluster: "cl_event_number (make_cluster ev i c) = ev"
  by (cases c) simp_all

lemma event_clusters_events:
  "map cl_event_number (event_clusters adj keep g) =
     replicate (length (connected_components adj (filter keep (snd g)))) (fst g)"
  by (simp add: event_clusters_def cl_event_number_make_cluster comp_def map_replicate_const)

lemma sorted_concat_replicate:
  "sorted (map fst gs) \<Longrightarrow> sorted (concat (map (\<lambda>g. replicate (k g) (fst g :: int)) gs))"
  by (induction gs) (auto simp: sorted_append)

lemma spec_clusterizer_events:
  "map cl_event_number (spec_clusterizer cd rd fd minc maxc hits noisy dis) =
     concat (map (\<lambda>g. replicate
        (length (connected_components (adjacent cd rd fd) (filter (surviving minc maxc noisy dis) (snd g))))
        (fst g)) (group_events hits))"
  by (simp add: spec_clusterizer_def map_concat comp_def event_clusters_events)

lemma spec_clusterizer_sorted:
  "sorted (map event_number hits) \<Longrightarrow>
   sorted (map cl_event_number (spec_clusterizer cd rd fd minc maxc hits noisy dis))"
  unfolding spec_clusterizer_events
  by (rule sorted_concat_replicate) (rule group_events_sorted)

lemma spec_clusterizer_subset:
  "c \<in> set (spec_clusterizer cd rd fd minc maxc hits noisy dis) \<Longrightarrow>
   cl_event_number c \<in> event_number ` set hits"
proof -
  assume "c \<in> set (spec_clusterizer cd rd fd minc maxc hits noisy dis)"
  then have "cl_event_number c \<in> set (map cl_event_number (spec_clusterizer cd rd fd minc maxc hits noisy dis))"
    by simp
  then have "cl_event_number c \<in> fst ` set (group_events hits)"
    unfolding spec_clusterizer_events by auto
  then show ?thesis by (rule group_events_fst)
qed

lemma spec_clusterizer_covers:
  assumes "h \<in> set hits" "surviving minc maxc noisy dis h"
  shows "event_number h \<in> cl_event_number ` set (spec_clusterizer cd rd fd minc maxc hits noisy dis)"
proof -
  from assms(1) have "h \<in> set (concat (map snd (group_events hits)))"
    by (simp add: group_events_concat)
  then obtain e g where g: "(e, g) \<in> set (group_events hits)" "h \<in> set g" by auto
  then have e: "e = event_number h" by (simp add: group_events_event)
  have "filter (surviving minc maxc noisy dis) g \<noteq> []"
    using g(2) assms(2) by (auto simp: filter_empty_conv)
  then have "0 < length (connected_components (adjacent cd rd fd) (filter (surviving minc maxc noisy dis) g))"
    by (simp add: connected_components_not_Nil)
  then have "e \<in> set (map cl_event_number (spec_clusterizer cd rd fd minc maxc hits noisy dis))"
    unfolding spec_clusterizer_events using g(1) by force
  then show ?thesis using e by simp
qed

lemma sorted_chunks:
  "sorted (map event_number (concat chunks)) \<Longrightarrow> hits \<in> set chunks \<Longrightarrow>
   sorted (map event_number hits)"
  by (induction chunks) (auto simp: sorted_append)

lemma sorted_clusters_of_chunks:
  assumes "sorted (map event_number (concat chunks))"
    and "\<And>hits. sorted (map event_number hits) \<Longrightarrow> sorted (map cl_event_number (cl hits))"
    and "\<And>hits c. c \<in> set (cl hits) \<Longrightarrow> cl_event_number c \<in> event_number ` set hits"
  shows "sorted (map cl_event_number (concat (map cl chunks)))"
  using assms(1)
proof (induction chunks)
  case Nil
  then show ?case by simp
next
  case (Cons hits chunks)
  from Cons.prems have s: "sorted (map event_number hits)" "sorted (map event_number (concat chunks))"
    and le: "\<And>x y. x \<in> set hits \<Longrightarrow> y \<in> set (concat chunks) \<Longrightarrow> event_number x \<le> event_number y"
    by (auto simp: sorted_append)
  have "cl_event_number c \<le> cl_event_number d"
    if "c \<in> set (cl hits)" "d \<in> set (concat (map cl chunks))" for c d
  proof -
    from that(1) obtain x where x: "x \<in> set hits" "cl_event_number c = event_number x"
      using assms(3) by blast
    from that(2) obtain hs where "hs \<in> set chunks" "d \<in> set (cl hs)" by auto
    then obtain y where "y \<in> set (concat chunks)" "cl_event_number d = event_number y"
      using assms(3) [of d hs] by auto
    with x le show ?thesis by simp
  qed
  with assms(2) [OF s(1)] Cons.IH [OF s(2)] show ?case
    by (auto simp: sorted_append)
qed

text \<open>
  Where the checks are sound. For a hit table whose event numbers never decrease, and of
  which no two differ by \<open>2^63\<close> or more, clustered with the clusterizer after the
  spec, \<open>cluster_hits\<close> succeeds, the event numbers of the \<open>Cluster\<close> table never
  decrease, and the event number of every hit that survives the charge bounds and the
  pixel masks is the event number of some cluster.
\<close>

lemma cluster_hits_nondecreasing_table:
  assumes "fs input_hits_file = Some input_file_h5"
    and "input_file_h5 ''Hits'' = Some (HitTable table)"
    and "read_mask_pixels fs disabled_file ''DisabledPixelMask'' = Inr disabled_pixels"
    and "read_mask_pixels fs noisy_file ''NoisyPixelMask'' = Inr noisy_pixels"
    and "cluster_file input_hits_file output_cluster_file \<noteq> input_hits_file"
    and "sorted (map event_number table)" and "0 < chunk_size"
    and "\<forall>h\<in>set table. \<forall>k\<in>set table. event_number k - event_number h < 2 ^ 63"
  shows "\<exists>rows.
     cluster_hits spec_clusterizer input_hits_file output_cluster_file disabled_file noisy_file
         min_hit_charge max_hit_charge cd rd fd chunk_size fs =
       (Inr (cluster_file input_hits_file output_cluster_file),
        fs(cluster_file input_hits_file output_cluster_file \<mapsto>
             [''Cluster'' \<mapsto> ClusterTable rows])) \<and>
     sorted (map cl_event_number rows) \<and>
     (\<forall>h \<in> set table. surviving min_hit_charge max_hit_charge noisy_pixels disabled_pixels h \<longrightarrow>
        event_number h \<in> cl_event_number ` set rows)"
proof -
  let ?cl = "\<lambda>hits. spec_clusterizer cd rd fd min_hit_charge max_hit_charge hits noisy_pixels disabled_pixels"
  let ?chunks = "data_aligned_at_events table chunk_size"
  let ?rows = "concat (map ?cl ?chunks)"
  have cc: "concat ?chunks = table"
    by (rule concat_data_aligned_at_events [OF assms(7)])
  have pass: "list_all (chunk_passes (spec_clusterizer cd rd fd min_hit_charge max_hit_charge)
      noisy_pixels disabled_pixels) ?chunks"
    unfolding list_all_iff chunk_passes_def
  proof (intro ballI conjI)
    fix hits assume h: "hits \<in> set ?chunks"
    then have "set hits \<subseteq> set (concat ?chunks)" by auto
    then have sub: "set hits \<subseteq> set table" unfolding cc .
    have ev: "y - x < 2 ^ 63"
      if "x \<in> event_number ` set hits" "y \<in> event_number ` set hits" for x y
    proof -
      from that obtain a b where "a \<in> set hits" "x = event_number a"
        "b \<in> set hits" "y = event_number b" by auto
      with sub assms(8) show ?thesis by blast
    qed
    have s: "sorted (map event_number hits)"
      using assms(6) sorted_chunks [of ?chunks hits] h by (simp add: cc)
    have "\<forall>x\<in>set (map event_number hits). \<forall>y\<in>set (map event_number hits). y - x < 2 ^ 63"
      using ev by simp
    from all_diff_ge_0_sorted [OF this] s
    show "all_diff_ge_0 (map event_number hits)" by blast
    have cs: "sorted (map cl_event_number (?cl hits))"
      using s by (rule spec_clusterizer_sorted)
    have cl_sub: "cl_event_number c \<in> event_number ` set hits" if "c \<in> set (?cl hits)" for c
      using that by (rule spec_clusterizer_subset)
    have "\<forall>x\<in>set (map cl_event_number (?cl hits)).
        \<forall>y\<in>set (map cl_event_number (?cl hits)). y - x < 2 ^ 63"
      using ev [OF cl_sub cl_sub] by simp
    from all_diff_ge_0_sorted [OF this] cs
    show "all_diff_ge_0 (map cl_event_number (?cl hits))" by blast
  qed
  then have tw: "takeWhile (chunk_passes (spec_clusterizer cd rd fd min_hit_charge max_hit_charge)
      noisy_pixels disabled_pixels) ?chunks = ?chunks"
    by (simp add: list_all_iff)
  have run: "cluster_hits spec_clusterizer input_hits_file output_cluster_file disabled_file noisy_file
         min_hit_charge max_hit_charge cd rd fd chunk_size fs =
       (Inr (cluster_file input_hits_file output_cluster_file),
        fs(cluster_file input_hits_file output_cluster_file \<mapsto>
             [''Cluster'' \<mapsto> ClusterTable ?rows]))"
    using cluster_hits_run [where fs = fs and input_hits_file = input_hits_file
        and HC = spec_clusterizer, OF assms(1-5)] pass
    by (simp add: tw)
  have srt: "sorted (map cl_event_number ?rows)"
    by (rule sorted_clusters_of_chunks)
      (simp_all add: cc assms(6) spec_clusterizer_sorted spec_clusterizer_subset)
  have cov: "event_number h \<in> cl_event_number ` set ?rows"
    if "h \<in> set table" "surviving min_hit_charge max_hit_charge noisy_pixels disabled_pixels h" for h
  proof -
    from that(1) have "h \<in> set (concat ?chunks)" by (simp add: cc)
    then obtain hits where hits: "hits \<in> set ?chunks" "h \<in> set hits" by auto
    from spec_clusterizer_covers [OF hits(2) that(2), of cd rd fd]
    show ?thesis using hits(1) by auto
  qed
  from run srt cov show ?thesis by blast
qed

lemma generate_pixel_mask_plan:
  assumes "generate_pixel_mask ops input_hits_file n_pixel pixel_mask_name output_mask_file
             threshold filter_size chunk_size fs = (r, fs')"
  shows "(fs' = fs \<and>
          (\<forall>fs2. fs2 input_hits_file = fs input_hits_file \<longrightarrow>
             generate_pixel_mask ops input_hits_file n_pixel pixel_mask_name output_mask_file
               threshold filter_size chunk_size fs2 = (r, fs2))) \<or>
         (\<exists>x. fs' = fs(mask_file input_hits_file pixel_mask_name output_mask_file \<mapsto> x) \<and>
          (\<forall>fs2. fs2 input_hits_file = fs input_hits_file \<longrightarrow>
             generate_pixel_mask ops input_hits_file n_pixel pixel_mask_name output_mask_file
               threshold filter_size chunk_size fs2 =
             (r, fs2(mask_file input_hits_file pixel_mask_name output_mask_file \<mapsto> x))))"
  using assms
  by (auto simp: generate_pixel_mask_def mask_file_def open_file_r_def Let_def
      split: option.splits sum.splits prod.splits)

lemma read_mask_pixels_cong:
  "(\<And>p. mf = Some p \<Longrightarrow> fs2 p = fs p) \<Longrightarrow>
   read_mask_pixels fs2 mf name = read_mask_pixels fs mf name"
  by (cases mf) (simp_all add: read_mask_pixels_def open_file_r_def)

lemma cluster_hits_plan:
  assumes "cluster_hits HC input_hits_file output_cluster_file disabled_file noisy_file
             min_hit_charge max_hit_charge cd rd fd chunk_size fs = (r, fs')"
  shows "(fs' = fs \<and>
          (\<forall>fs2. fs2 input_hits_file = fs input_hits_file \<and>
                 read_mask_pixels fs2 disabled_file ''DisabledPixelMask'' =
                   read_mask_pixels fs disabled_file ''DisabledPixelMask'' \<and>
                 read_mask_pixels fs2 noisy_file ''NoisyPixelMask'' =
                   read_mask_pixels fs noisy_file ''NoisyPixelMask'' \<longrightarrow>
             cluster_hits HC input_hits_file output_cluster_file disabled_file noisy_file
               min_hit_charge max_hit_charge cd rd fd chunk_size fs2 = (r, fs2))) \<or>
         (\<exists>x. fs' = fs(cluster_file input_hits_file output_cluster_file \<mapsto> x) \<and>
          (\<forall>fs2. fs2 input_hits_file = fs input_hits_file \<and>
                 read_mask_pixels fs2 disabled_file ''DisabledPixelMask'' =
                   read_mask_pixels fs disabled_file ''DisabledPixelMask'' \<and>
                 read_mask_pixels fs2 noisy_file ''NoisyPixelMask'' =
                   read_mask_pixels fs noisy_file ''NoisyPixelMask'' \<longrightarrow>
             cluster_hits HC input_hits_file output_cluster_file disabled_file noisy_file
               min_hit_charge max_hit_charge cd rd fd chunk_size fs2 =
             (r, fs2(cluster_file input_hits_file output_cluster_file \<mapsto> x))))"
  using assms
  by (auto simp: cluster_hits_def cluster_file_def open_file_r_def Let_def
      split: option.splits sum.splits prod.splits if_splits)

text \<open>
  C6. Running \<open>generate_pixel_mask\<close> again, with the same parameters, on the
  store the first run left gives the same result and the same mask file: the stage is
  idempotent on the store. The mask file is not the hit file itself, so that both runs
  read the same hits.
\<close>

theorem generate_pixel_mask_idempotent:
  assumes "mask_file input_hits_file pixel_mask_name output_mask_file \<noteq> input_hits_file"
  shows "generate_pixel_mask ops input_hits_file n_pixel pixel_mask_name output_mask_file
           threshold filter_size chunk_size
           (snd (generate_pixel_mask ops input_hits_file n_pixel pixel_mask_name output_mask_file
                   threshold filter_size chunk_size fs)) =
         generate_pixel_mask ops input_hits_file n_pixel pixel_mask_name output_mask_file
           threshold filter_size chunk_size fs"
proof -
  obtain r fs' where run: "generate_pixel_mask ops input_hits_file n_pixel pixel_mask_name
      output_mask_file threshold filter_size chunk_size fs = (r, fs')"
    by (cases "generate_pixel_mask ops input_hits_file n_pixel pixel_mask_name
      output_mask_file threshold filter_size chunk_size fs")
  from generate_pixel_mask_plan [OF run] show ?thesis
  proof (elim disjE conjE exE)
    assume "fs' = fs"
    then show ?thesis by (simp add: run)
  next
    fix x
    let ?out = "mask_file input_hits_file pixel_mask_name output_mask_file"
    assume fs': "fs' = fs(?out \<mapsto> x)"
      and again: "\<forall>fs2. fs2 input_hits_file = fs input_hits_file \<longrightarrow>
        generate_pixel_mask ops input_hits_file n_pixel pixel_mask_name output_mask_file
          threshold filter_size chunk_size fs2 = (r, fs2(?out \<mapsto> x))"
    have "fs' input_hits_file = fs input_hits_file"
      using assms fs' by simp
    with again have "generate_pixel_mask ops input_hits_file n_pixel pixel_mask_name
        output_mask_file threshold filter_size chunk_size fs' = (r, fs'(?out \<mapsto> x))"
      by blast
    moreover have "fs'(?out \<mapsto> x) = fs'" using fs' by simp
    ultimately show ?thesis by (simp add: run)
  qed
qed

text \<open>
  C5. Running \<open>cluster_hits\<close> again, with the same parameters and whatever
  clusterizer, on the store the first run left gives the same result and the same
  \<open>Cluster\<close> rows. The cluster file is none of the files the stage reads, so that
  both runs read the same hits and masks.
\<close>

theorem cluster_hits_deterministic:
  assumes "cluster_file input_hits_file output_cluster_file \<noteq> input_hits_file"
    and "disabled_file \<noteq> Some (cluster_file input_hits_file output_cluster_file)"
    and "noisy_file \<noteq> Some (cluster_file input_hits_file output_cluster_file)"
  shows "cluster_hits HC input_hits_file output_cluster_file disabled_file noisy_file
           min_hit_charge max_hit_charge cd rd fd chunk_size
           (snd (cluster_hits HC input_hits_file output_cluster_file disabled_file noisy_file
                   min_hit_charge max_hit_charge cd rd fd chunk_size fs)) =
         cluster_hits HC input_hits_file output_cluster_file disabled_file noisy_file
           min_hit_charge max_hit_charge cd rd fd chunk_size fs"
proof -
  obtain r fs' where run: "cluster_hits HC input_hits_file output_cluster_file disabled_file
      noisy_file min_hit_charge max_hit_charge cd rd fd chunk_size fs = (r, fs')"
    by (cases "cluster_hits HC input_hits_file output_cluster_file disabled_file
      noisy_file min_hit_charge max_hit_charge cd rd fd chunk_size fs")
  from cluster_hits_plan [OF run] show ?thesis
  proof (elim disjE conjE exE)
    assume "fs' = fs"
    then show ?thesis by (simp add: run)
  next
    fix x
    let ?out = "cluster_file input_hits_file output_cluster_file"
    assume fs': "fs' = fs(?out \<mapsto> x)"
      and again: "\<forall>fs2. fs2 input_hits_file = fs input_hits_file \<and>
          read_mask_pixels fs2 disabled_file ''DisabledPixelMask'' =
            read_mask_pixels fs disabled_file ''DisabledPixelMask'' \<and>
          read_mask_pixels fs2 noisy_file ''NoisyPixelMask'' =
            read_mask_pixels fs noisy_file ''NoisyPixelMask'' \<longrightarrow>
        cluster_hits HC input_hits_file output_cluster_file disabled_file noisy_file
          min_hit_charge max_hit_charge cd rd fd chunk_size fs2 = (r, fs2(?out \<mapsto> x))"
    have "fs' input_hits_file = fs input_hits_file"
      using assms(1) fs' by simp
    moreover have "read_mask_pixels fs' disabled_file ''DisabledPixelMask'' =
        read_mask_pixels fs disabled_file ''DisabledPixelMask''"
      by (rule read_mask_pixels_cong) (use assms(2) fs' in auto)
    moreover have "read_mask_pixels fs' noisy_file ''NoisyPixelMask'' =
        read_mask_pixels fs noisy_file ''NoisyPixelMask''"
      by (rule read_mask_pixels_cong) (use assms(3) fs' in auto)
    ultimately have "cluster_hits HC input_hits_file output_cluster_file disabled_file
        noisy_file min_hit_charge max_hit_charge cd rd fd chunk_size fs' = (r, fs'(?out \<mapsto> x))"
      using again by blast
    moreover have "fs'(?out \<mapsto> x) = fs'" using fs' by simp
    ultimately show ?thesis by (simp add: run)
  qed
qed

lemma generate_pixel_mask_frame:
  assumes "p \<noteq> mask_file input_hits_file pixel_mask_name output_mask_file"
  shows "snd (generate_pixel_mask ops input_hits_file n_pixel pixel_mask_name output_mask_file
           threshold filter_size chunk_size fs) p = fs p"
proof -
  obtain r fs' where run: "generate_pixel_mask ops input_hits_file n_pixel pixel_mask_name
      output_mask_file threshold filter_size chunk_size fs = (r, fs')"
    by (cases "generate_pixel_mask ops input_hits_file n_pixel pixel_mask_name
      output_mask_file threshold filter_size chunk_size fs")
  from generate_pixel_mask_plan [OF run] assms show ?thesis
    by (auto simp: run)
qed

lemma cluster_hits_frame:
  assumes "p \<noteq> cluster_file input_hits_file output_cluster_file"
  shows "snd (cluster_hits HC input_hits_file output_cluster_file disabled_file noisy_file
           min_hit_charge max_hit_charge cd rd fd chunk_size fs) p = fs p"
proof -
  obtain r fs' where run: "cluster_hits HC input_hits_file output_cluster_file disabled_file
      noisy_file min_hit_charge max_hit_charge cd rd fd chunk_size fs = (r, fs')"
    by (cases "cluster_hits HC input_hits_file output_cluster_file disabled_file
      noisy_file min_hit_charge max_hit_charge cd rd fd chunk_size fs")
  from cluster_hits_plan [OF run] assms show ?thesis
    by (auto simp: run)
qed

lemma remove_noisy_pixels_frame:
  assumes "p \<noteq> hits_file input_hits_file output_hits_file"
    and "p \<noteq> default_mask_file input_hits_file ''DisabledPixelMask''"
  shows "snd (remove_noisy_pixels ops input_hits_file n_pixel output_hits_file
           threshold filter_size chunk_size fs) p = fs p"
proof -
  obtain r fs1 where run: "generate_pixel_mask ops input_hits_file n_pixel ''DisabledPixelMask''
      None threshold filter_size chunk_size fs = (r, fs1)"
    by (cases "generate_pixel_mask ops input_hits_file n_pixel ''DisabledPixelMask''
      None threshold filter_size chunk_size fs")
  have fs1: "fs1 p = fs p"
    using generate_pixel_mask_frame [of p input_hits_file "''DisabledPixelMask''" None ops n_pixel
        threshold filter_size chunk_size fs] assms(2)
    by (simp add: run mask_file_def)
  show ?thesis
    unfolding remove_noisy_pixels_def using fs1 assms(1)
    by (auto simp: run hits_file_def Let_def split: sum.splits prod.splits option.splits if_splits)
qed

subsection \<open>Runs on example tables\<close>

lemma decreasing_chunks:
  "data_aligned_at_events decreasing_hits 2 =
     [[pixel_hit 1 1 1, pixel_hit 1 1 2], [pixel_hit 0 1 1, pixel_hit 0 1 2]]"
  by code_simp

lemma decreasing_loop:
  "cluster_loop (spec_clusterizer 1 1 1 0 None) None None
     [[pixel_hit 1 1 1, pixel_hit 1 1 2], [pixel_hit 0 1 1, pixel_hit 0 1 2]] [] =
   (None, [pair_cluster 1, pair_cluster 0])"
  by code_simp

lemma example_root: "fst (splitext ''hits.h5'') = ''hits''"
  by code_simp

lemma decreasing_not_sorted: "\<not> sorted (map event_number decreasing_hits)"
  by (simp add: decreasing_hits_def pixel_hit_def)

text \<open>
  C2. A hit table whose event number decreases is to be refused with a
  \<open>RuntimeError\<close>. The check runs on each chunk alone: with chunks of two rows the
  table with events 1, 1, 0, 0 is read as the chunks 1, 1 and 0, 0, both pass, and the
  stage returns the cluster file with the cluster of event 1 before that of event 0.
\<close>

theorem cluster_hits_accepts_decrease:
  "cluster_hits spec_clusterizer ''hits.h5'' None None None 0 None 1 1 1 2
       [''hits.h5'' \<mapsto> [''Hits'' \<mapsto> HitTable decreasing_hits]] =
     (Inr ''hits_cluster.h5'',
      [''hits.h5'' \<mapsto> [''Hits'' \<mapsto> HitTable decreasing_hits],
       ''hits_cluster.h5'' \<mapsto> [''Cluster'' \<mapsto> ClusterTable [pair_cluster 1, pair_cluster 0]]])"
  by (simp add: cluster_hits_def read_mask_pixels_def open_file_r_def get_hits_def
      decreasing_chunks decreasing_loop example_root Let_def del: cluster_loop.simps)




lemma failing_chunks:
  "data_aligned_at_events failing_hits 2 =
     [[pixel_hit 0 1 1, pixel_hit 0 1 2], [pixel_hit 2 1 1, pixel_hit 1 1 1]]"
  by code_simp

lemma failing_loop:
  "cluster_loop (spec_clusterizer 1 1 1 0 None) None None
     [[pixel_hit 0 1 1, pixel_hit 0 1 2], [pixel_hit 2 1 1, pixel_hit 1 1 1]] [] =
   (Some RuntimeError, [pair_cluster 0])"
  by code_simp

text \<open>
  C7, as stated, fails: with chunks of two rows the table with events 0, 0, 2, 1
  passes its first chunk and fails its second, and the call leaves the cluster file, at
  its final path, with the cluster of the first chunk in it.
\<close>

theorem cluster_hits_partial_output:
  "cluster_hits spec_clusterizer ''hits.h5'' None None None 0 None 1 1 1 2
       [''hits.h5'' \<mapsto> [''Hits'' \<mapsto> HitTable failing_hits]] =
     (Inl RuntimeError,
      [''hits.h5'' \<mapsto> [''Hits'' \<mapsto> HitTable failing_hits],
       ''hits_cluster.h5'' \<mapsto> [''Cluster'' \<mapsto> ClusterTable [pair_cluster 0]]])"
  by (simp add: cluster_hits_def read_mask_pixels_def open_file_r_def get_hits_def
      failing_chunks failing_loop example_root Let_def del: cluster_loop.simps)

text \<open>
  C9, as stated, fails: \<open>max_cluster_hits\<close> is no parameter of
  \<open>cluster_hits\<close>, and a call that passes it is a \<open>TypeError\<close>.
\<close>

theorem cluster_hits_no_max_cluster_hits:
  "''max_cluster_hits'' \<notin> set cluster_hits_parameters \<and>
   check_keywords cluster_hits_parameters [''input_hits_file'', ''max_cluster_hits''] =
     Some TypeError"
  by (simp add: cluster_hits_parameters_def check_keywords_def)

text \<open>
  C8, as stated, fails: \<open>generate_pixel_mask\<close> called with the hit file as its
  \<open>output_mask_file\<close> replaces the hit file by the mask file.
\<close>

theorem generate_pixel_mask_overwrites_input:
  "generate_pixel_mask exact_ops ''hits.h5'' (2, 2) ''NoisyPixelMask'' (Some ''hits.h5'') 1 (3, 3)
       1000000 [''hits.h5'' \<mapsto> [''Hits'' \<mapsto> HitTable example_hits]] =
     (Inr ''hits.h5'',
      [''hits.h5'' \<mapsto> [''HistOcc'' \<mapsto> IntArray [[2, 2], [0, 0]],
                     ''NoisyPixelMask'' \<mapsto> BoolArray [[True, True], [False, False]]]])"
  by (simp add: generate_pixel_mask_def open_file_r_def get_hits_def
      example_chunks example_arrays create_node_def Let_def)


lemma cluster_hits_same_file:
  assumes "cluster_file input_hits_file output_cluster_file = input_hits_file"
  shows "\<exists>e. fst (cluster_hits HC input_hits_file output_cluster_file disabled_file noisy_file
           min_hit_charge max_hit_charge cd rd fd chunk_size fs) = Inl e"
  using assms
  by (auto simp: cluster_hits_def cluster_file_def Let_def split: sum.splits option.splits)

text \<open>
  C7, amended. When a chunk fails one of the two monotonicity checks, the stage
  raises \<open>RuntimeError\<close> at once: no later chunk is clustered. The cluster file is
  written in place, and is left holding the clusters of exactly the chunks before the
  failing one.
\<close>

theorem cluster_hits_stops_at_failure:
  assumes "fs input_hits_file = Some input_file_h5"
    and "input_file_h5 ''Hits'' = Some (HitTable table)"
    and "read_mask_pixels fs disabled_file ''DisabledPixelMask'' = Inr disabled_pixels"
    and "read_mask_pixels fs noisy_file ''NoisyPixelMask'' = Inr noisy_pixels"
    and "cluster_file input_hits_file output_cluster_file \<noteq> input_hits_file"
    and "\<not> list_all (chunk_passes (HC cd rd fd min_hit_charge max_hit_charge) noisy_pixels disabled_pixels)
           (data_aligned_at_events table chunk_size)"
  shows "cluster_hits HC input_hits_file output_cluster_file disabled_file noisy_file
           min_hit_charge max_hit_charge cd rd fd chunk_size fs =
     (Inl RuntimeError,
      fs(cluster_file input_hits_file output_cluster_file \<mapsto>
           [''Cluster'' \<mapsto> ClusterTable
              (concat (map (\<lambda>hits. HC cd rd fd min_hit_charge max_hit_charge hits noisy_pixels disabled_pixels)
                 (takeWhile (chunk_passes (HC cd rd fd min_hit_charge max_hit_charge) noisy_pixels disabled_pixels)
                    (data_aligned_at_events table chunk_size))))]))"
  using cluster_hits_run [where fs = fs and input_hits_file = input_hits_file and HC = HC,
      OF assms(1-5)] assms(6)
  by simp

text \<open>
  C9, amended. \<open>cluster_hits\<close> has no parameter for a maximum cluster size.
  When it succeeds, every cluster the clusterizer returns for a chunk is a row of the
  \<open>Cluster\<close> table, whatever its number of hits.
\<close>

theorem cluster_hits_keeps_every_cluster:
  assumes "fs input_hits_file = Some input_file_h5"
    and "input_file_h5 ''Hits'' = Some (HitTable table)"
    and "read_mask_pixels fs disabled_file ''DisabledPixelMask'' = Inr disabled_pixels"
    and "read_mask_pixels fs noisy_file ''NoisyPixelMask'' = Inr noisy_pixels"
    and "fst (cluster_hits HC input_hits_file output_cluster_file disabled_file noisy_file
           min_hit_charge max_hit_charge cd rd fd chunk_size fs) = Inr out"
    and "hits \<in> set (data_aligned_at_events table chunk_size)"
    and "c \<in> set (HC cd rd fd min_hit_charge max_hit_charge hits noisy_pixels disabled_pixels)"
  shows "''max_cluster_hits'' \<notin> set cluster_hits_parameters \<and>
     (\<exists>rows. snd (cluster_hits HC input_hits_file output_cluster_file disabled_file noisy_file
           min_hit_charge max_hit_charge cd rd fd chunk_size fs) out =
         Some [''Cluster'' \<mapsto> ClusterTable rows] \<and> c \<in> set rows)"
proof -
  let ?pass = "chunk_passes (HC cd rd fd min_hit_charge max_hit_charge) noisy_pixels disabled_pixels"
  let ?chunks = "data_aligned_at_events table chunk_size"
  have ne: "cluster_file input_hits_file output_cluster_file \<noteq> input_hits_file"
    using cluster_hits_same_file [of input_hits_file output_cluster_file HC disabled_file noisy_file
        min_hit_charge max_hit_charge cd rd fd chunk_size fs] assms(5)
    by auto
  note run = cluster_hits_run [where fs = fs and input_hits_file = input_hits_file and HC = HC
      and min_hit_charge = min_hit_charge and max_hit_charge = max_hit_charge and cd = cd
      and rd = rd and fd = fd and chunk_size = chunk_size, OF assms(1-4) ne]
  from assms(5) have pass: "list_all ?pass ?chunks"
    and out: "out = cluster_file input_hits_file output_cluster_file"
    by (auto simp: run split: if_splits)
  then have tw: "takeWhile ?pass ?chunks = ?chunks"
    by (simp add: list_all_iff)
  let ?rows = "concat (map (\<lambda>hits. HC cd rd fd min_hit_charge max_hit_charge hits
      noisy_pixels disabled_pixels) ?chunks)"
  have c: "c \<in> set ?rows"
    using assms(6,7) by auto
  have "snd (cluster_hits HC input_hits_file output_cluster_file disabled_file noisy_file
           min_hit_charge max_hit_charge cd rd fd chunk_size fs) out =
         Some [''Cluster'' \<mapsto> ClusterTable ?rows]"
    by (simp add: run out tw)
  with c have "\<exists>rows. snd (cluster_hits HC input_hits_file output_cluster_file disabled_file
           noisy_file min_hit_charge max_hit_charge cd rd fd chunk_size fs) out =
         Some [''Cluster'' \<mapsto> ClusterTable rows] \<and> c \<in> set rows"
    by blast
  then show ?thesis
    by (simp add: cluster_hits_parameters_def)
qed

text \<open>
  C8, amended. Each stage leaves every file untouched but its own output: the mask
  file for \<open>generate_pixel_mask\<close>, the output hit file and the mask file of default
  name for \<open>remove_noisy_pixels\<close>, the cluster file for \<open>cluster_hits\<close>. An output
  path left to its default differs from the path of the hit file.
\<close>

theorem stages_write_only_outputs:
  "(p \<noteq> mask_file input_hits_file pixel_mask_name output_mask_file \<longrightarrow>
      snd (generate_pixel_mask ops input_hits_file n_pixel pixel_mask_name output_mask_file
             threshold filter_size chunk_size fs) p = fs p) \<and>
   (p \<noteq> hits_file input_hits_file output_hits_file \<and>
    p \<noteq> default_mask_file input_hits_file ''DisabledPixelMask'' \<longrightarrow>
      snd (remove_noisy_pixels ops input_hits_file n_pixel output_hits_file
             threshold filter_size chunk_size fs) p = fs p) \<and>
   (p \<noteq> cluster_file input_hits_file output_cluster_file \<longrightarrow>
      snd (cluster_hits HC input_hits_file output_cluster_file disabled_file noisy_file
             min_hit_charge max_hit_charge cd rd fd chunk_size fs) p = fs p) \<and>
   mask_file input_hits_file pixel_mask_name None \<noteq> input_hits_file \<and>
   default_mask_file input_hits_file ''DisabledPixelMask'' \<noteq> input_hits_file \<and>
   hits_file input_hits_file None \<noteq> input_hits_file \<and>
   cluster_file input_hits_file None \<noteq> input_hits_file"
  by (simp add: generate_pixel_mask_frame remove_noisy_pixels_frame cluster_hits_frame
      mask_file_def hits_file_def default_mask_file_neq cluster_file_default_neq
      splitext_underscore_neq)


lemma example_chunks_2:
  "data_aligned_at_events example_hits 2 =
     [[pixel_hit 0 1 1, pixel_hit 0 1 2], [pixel_hit 1 1 1, pixel_hit 2 1 2]]"
  by code_simp

lemma example_loop:
  "cluster_loop (spec_clusterizer 1 1 1 0 None) None None
     [[pixel_hit 0 1 1, pixel_hit 0 1 2], [pixel_hit 1 1 1, pixel_hit 2 1 2]] [] =
   (None, [pair_cluster 0, single_cluster 1 1 1, single_cluster 2 1 2])"
  by code_simp

lemma example_first_chunk:
  "spec_clusterizer 1 1 1 0 None [pixel_hit 0 1 1, pixel_hit 0 1 2] None None = [pair_cluster 0]"
  by code_simp

lemma cluster_hits_example:
  "cluster_hits spec_clusterizer ''hits.h5'' None None None 0 None 1 1 1 2
       [''hits.h5'' \<mapsto> [''Hits'' \<mapsto> HitTable example_hits]] =
     (Inr ''hits_cluster.h5'',
      [''hits.h5'' \<mapsto> [''Hits'' \<mapsto> HitTable example_hits],
       ''hits_cluster.h5'' \<mapsto> [''Cluster'' \<mapsto>
          ClusterTable [pair_cluster 0, single_cluster 1 1 1, single_cluster 2 1 2]]])"
  by (simp add: cluster_hits_def read_mask_pixels_def open_file_r_def get_hits_def
      example_chunks_2 example_loop example_root Let_def del: cluster_loop.simps)

lemma example_sorted: "sorted (map event_number example_hits)"
  by (simp add: example_hits_def pixel_hit_def)

lemma example_hits_file:
  "[''hits.h5'' \<mapsto> [''Hits'' \<mapsto> HitTable example_hits]] ''hits.h5'' =
     Some [''Hits'' \<mapsto> HitTable example_hits]"
  "[''Hits'' \<mapsto> HitTable example_hits] ''Hits'' = Some (HitTable example_hits)"
  by simp_all

lemma failing_hits_file:
  "[''hits.h5'' \<mapsto> [''Hits'' \<mapsto> HitTable failing_hits]] ''hits.h5'' =
     Some [''Hits'' \<mapsto> HitTable failing_hits]"
  "[''Hits'' \<mapsto> HitTable failing_hits] ''Hits'' = Some (HitTable failing_hits)"
  by simp_all

lemma cluster_hits_nondecreasing_table_example:
  "sorted (map event_number example_hits) \<and>
   (\<exists>rows.
     cluster_hits spec_clusterizer ''hits.h5'' None None None 0 None 1 1 1 2
         [''hits.h5'' \<mapsto> [''Hits'' \<mapsto> HitTable example_hits]] =
       (Inr (cluster_file ''hits.h5'' None),
        [''hits.h5'' \<mapsto> [''Hits'' \<mapsto> HitTable example_hits],
         cluster_file ''hits.h5'' None \<mapsto> [''Cluster'' \<mapsto> ClusterTable rows]]) \<and>
     sorted (map cl_event_number rows) \<and>
     (\<forall>h \<in> set example_hits. surviving 0 None None None h \<longrightarrow>
        event_number h \<in> cl_event_number ` set rows))"
proof (rule conjI)
  show "sorted (map event_number example_hits)" by (rule example_sorted)
  show "\<exists>rows.
     cluster_hits spec_clusterizer ''hits.h5'' None None None 0 None 1 1 1 2
         [''hits.h5'' \<mapsto> [''Hits'' \<mapsto> HitTable example_hits]] =
       (Inr (cluster_file ''hits.h5'' None),
        [''hits.h5'' \<mapsto> [''Hits'' \<mapsto> HitTable example_hits],
         cluster_file ''hits.h5'' None \<mapsto> [''Cluster'' \<mapsto> ClusterTable rows]]) \<and>
     sorted (map cl_event_number rows) \<and>
     (\<forall>h \<in> set example_hits. surviving 0 None None None h \<longrightarrow>
        event_number h \<in> cl_event_number ` set rows)"
    by (rule cluster_hits_nondecreasing_table
        [where fs = "[''hits.h5'' \<mapsto> [''Hits'' \<mapsto> HitTable example_hits]]"
          and input_hits_file = "''hits.h5''",
          OF example_hits_file read_mask_pixels_None read_mask_pixels_None])
      (simp_all add: cluster_file_default_neq example_sorted example_hits_def pixel_hit_def)
qed

theorem cluster_hits_deterministic_witness:
  "cluster_file ''hits.h5'' None \<noteq> ''hits.h5'' \<and>
   cluster_hits spec_clusterizer ''hits.h5'' None None None 0 None 1 1 1 2
     (snd (cluster_hits spec_clusterizer ''hits.h5'' None None None 0 None 1 1 1 2
             [''hits.h5'' \<mapsto> [''Hits'' \<mapsto> HitTable example_hits]])) =
   cluster_hits spec_clusterizer ''hits.h5'' None None None 0 None 1 1 1 2
     [''hits.h5'' \<mapsto> [''Hits'' \<mapsto> HitTable example_hits]]"
  using cluster_hits_deterministic [of "''hits.h5''" None None None spec_clusterizer 0 None 1 1 1 2
      "[''hits.h5'' \<mapsto> [''Hits'' \<mapsto> HitTable example_hits]]"]
  by (simp add: cluster_file_default_neq)

theorem generate_pixel_mask_idempotent_witness:
  "mask_file ''hits.h5'' ''NoisyPixelMask'' None \<noteq> ''hits.h5'' \<and>
   generate_pixel_mask exact_ops ''hits.h5'' (2, 2) ''NoisyPixelMask'' None 1 (3, 3) 1000000
     (snd (generate_pixel_mask exact_ops ''hits.h5'' (2, 2) ''NoisyPixelMask'' None 1 (3, 3) 1000000
             [''hits.h5'' \<mapsto> [''Hits'' \<mapsto> HitTable example_hits]])) =
   generate_pixel_mask exact_ops ''hits.h5'' (2, 2) ''NoisyPixelMask'' None 1 (3, 3) 1000000
     [''hits.h5'' \<mapsto> [''Hits'' \<mapsto> HitTable example_hits]]"
  using generate_pixel_mask_idempotent [of "''hits.h5''" "''NoisyPixelMask''" None exact_ops
      "(2, 2)" 1 "(3, 3)" 1000000 "[''hits.h5'' \<mapsto> [''Hits'' \<mapsto> HitTable example_hits]]"]
  by (simp add: mask_file_def default_mask_file_neq)

lemma failing_not_passing:
  "\<not> list_all (chunk_passes (spec_clusterizer 1 1 1 0 None) None None)
        (data_aligned_at_events failing_hits 2)"
  by code_simp

theorem cluster_hits_stops_at_failure_witness:
  "\<not> list_all (chunk_passes (spec_clusterizer 1 1 1 0 None) None None)
        (data_aligned_at_events failing_hits 2) \<and>
   cluster_hits spec_clusterizer ''hits.h5'' None None None 0 None 1 1 1 2
       [''hits.h5'' \<mapsto> [''Hits'' \<mapsto> HitTable failing_hits]] =
     (Inl RuntimeError,
      [''hits.h5'' \<mapsto> [''Hits'' \<mapsto> HitTable failing_hits],
       cluster_file ''hits.h5'' None \<mapsto>
           [''Cluster'' \<mapsto> ClusterTable
              (concat (map (\<lambda>hits. spec_clusterizer 1 1 1 0 None hits None None)
                 (takeWhile (chunk_passes (spec_clusterizer 1 1 1 0 None) None None)
                    (data_aligned_at_events failing_hits 2))))]])"
proof (rule conjI)
  show "\<not> list_all (chunk_passes (spec_clusterizer 1 1 1 0 None) None None)
        (data_aligned_at_events failing_hits 2)"
    by (rule failing_not_passing)
  show "cluster_hits spec_clusterizer ''hits.h5'' None None None 0 None 1 1 1 2
       [''hits.h5'' \<mapsto> [''Hits'' \<mapsto> HitTable failing_hits]] =
     (Inl RuntimeError,
      [''hits.h5'' \<mapsto> [''Hits'' \<mapsto> HitTable failing_hits],
       cluster_file ''hits.h5'' None \<mapsto>
           [''Cluster'' \<mapsto> ClusterTable
              (concat (map (\<lambda>hits. spec_clusterizer 1 1 1 0 None hits None None)
                 (takeWhile (chunk_passes (spec_clusterizer 1 1 1 0 None) None None)
                    (data_aligned_at_events failing_hits 2))))]])"
    by (rule cluster_hits_stops_at_failure
        [where fs = "[''hits.h5'' \<mapsto> [''Hits'' \<mapsto> HitTable failing_hits]]"
          and input_hits_file = "''hits.h5''",
          OF failing_hits_file read_mask_pixels_None read_mask_pixels_None])
      (simp_all add: cluster_file_default_neq failing_not_passing)
qed

theorem stages_write_only_outputs_witness:
  "snd (generate_pixel_mask exact_ops ''hits.h5'' (2, 2) ''NoisyPixelMask'' None 1 (3, 3) 2
          [''hits.h5'' \<mapsto> [''Hits'' \<mapsto> HitTable example_hits]]) ''hits.h5'' =
     Some [''Hits'' \<mapsto> HitTable example_hits] \<and>
   snd (remove_noisy_pixels exact_ops ''hits.h5'' (2, 2) None 1 (3, 3) 2
          [''hits.h5'' \<mapsto> [''Hits'' \<mapsto> HitTable example_hits]]) ''hits.h5'' =
     Some [''Hits'' \<mapsto> HitTable example_hits] \<and>
   snd (cluster_hits spec_clusterizer ''hits.h5'' None None None 0 None 1 1 1 2
          [''hits.h5'' \<mapsto> [''Hits'' \<mapsto> HitTable example_hits]]) ''hits.h5'' =
     Some [''Hits'' \<mapsto> HitTable example_hits]"
  using stages_write_only_outputs [where p = "''hits.h5''" and input_hits_file = "''hits.h5''"
      and pixel_mask_name = "''NoisyPixelMask''" and output_mask_file = None
      and output_hits_file = None and output_cluster_file = None
      and ops = exact_ops and n_pixel = "(2, 2)" and threshold = 1 and filter_size = "(3, 3)"
      and chunk_size = 2 and HC = spec_clusterizer and disabled_file = None
      and noisy_file = None and min_hit_charge = 0 and max_hit_charge = None
      and cd = 1 and rd = 1 and fd = 1
      and fs = "[''hits.h5'' \<mapsto> [''Hits'' \<mapsto> HitTable example_hits]]"]
  by (simp add: mask_file_def hits_file_def default_mask_file_neq [symmetric]
      cluster_file_default_neq [symmetric] splitext_underscore_neq [symmetric])

theorem cluster_hits_keeps_every_cluster_witness:
  "fst (cluster_hits spec_clusterizer ''hits.h5'' None None None 0 None 1 1 1 2
          [''hits.h5'' \<mapsto> [''Hits'' \<mapsto> HitTable example_hits]]) = Inr ''hits_cluster.h5'' \<and>
   [pixel_hit 0 1 1, pixel_hit 0 1 2] \<in> set (data_aligned_at_events example_hits 2) \<and>
   pair_cluster 0 \<in> set (spec_clusterizer 1 1 1 0 None [pixel_hit 0 1 1, pixel_hit 0 1 2] None None) \<and>
   ''max_cluster_hits'' \<notin> set cluster_hits_parameters \<and>
   (\<exists>rows. snd (cluster_hits spec_clusterizer ''hits.h5'' None None None 0 None 1 1 1 2
          [''hits.h5'' \<mapsto> [''Hits'' \<mapsto> HitTable example_hits]]) ''hits_cluster.h5'' =
         Some [''Cluster'' \<mapsto> ClusterTable rows] \<and> pair_cluster 0 \<in> set rows)"
proof -
  have h: "fst (cluster_hits spec_clusterizer ''hits.h5'' None None None 0 None 1 1 1 2
          [''hits.h5'' \<mapsto> [''Hits'' \<mapsto> HitTable example_hits]]) = Inr ''hits_cluster.h5''"
    "[pixel_hit 0 1 1, pixel_hit 0 1 2] \<in> set (data_aligned_at_events example_hits 2)"
    "pair_cluster 0 \<in> set (spec_clusterizer 1 1 1 0 None [pixel_hit 0 1 1, pixel_hit 0 1 2] None None)"
    by (simp_all add: cluster_hits_example example_chunks_2 example_first_chunk)
  have f: "[''hits.h5'' \<mapsto> [''Hits'' \<mapsto> HitTable example_hits]] ''hits.h5'' =
      Some [''Hits'' \<mapsto> HitTable example_hits]"
    "[''Hits'' \<mapsto> HitTable example_hits] ''Hits'' = Some (HitTable example_hits)"
    by simp_all
  from cluster_hits_keeps_every_cluster [where fs = "[''hits.h5'' \<mapsto> [''Hits'' \<mapsto> HitTable example_hits]]"
      and input_hits_file = "''hits.h5''" and HC = spec_clusterizer, OF f read_mask_pixels_None
      read_mask_pixels_None h]
  show ?thesis using h by blast
qed

section \<open>Properties of remove_noisy_pixels\<close>

lemma ravel_multi_index_hits:
  "list_all (in_grid n) hits \<Longrightarrow>
   ravel_multi_index (map (\<lambda>h. (column h - 1, row h - 1)) hits) n =
     Inr (map (\<lambda>h. (column h - 1) * int (snd n) + (row h - 1)) hits)"
  by (auto simp: ravel_multi_index_def list_all_iff in_shape_def in_grid_def)

lemma filter_zip_map:
  "map fst (filter (\<lambda>p. snd p \<notin> S) (zip hits (map f hits))) = filter (\<lambda>h. f h \<notin> S) hits"
  by (induction hits) auto

lemma select_loop_eq:
  "list_all (in_grid n) (concat chunks) \<Longrightarrow>
   select_loop n masked chunks acc =
     (None, acc @ filter (\<lambda>h. (column h - 1) * int (snd n) + (row h - 1) \<notin> set masked)
                         (concat chunks))"
  by (induction chunks arbitrary: acc) (simp_all add: ravel_multi_index_hits filter_zip_map)

lemma set_nonzero_array:
  "set (nonzero_array m) = {(c, r). c < length m \<and> r < length (m ! c) \<and> m ! c ! r}"
  by (auto simp: nonzero_array_def)

lemma ravel_multi_index_nonzero:
  assumes "length m = fst n" "\<And>c. c < fst n \<Longrightarrow> length (m ! c) = snd n"
  shows "ravel_multi_index (map (\<lambda>p. (int (fst p), int (snd p))) (nonzero_array m)) n =
     Inr (map (\<lambda>p. int (fst p) * int (snd n) + int (snd p)) (nonzero_array m))"
  using assms
  by (auto simp: ravel_multi_index_def list_all_iff in_shape_def set_nonzero_array)

lemma flat_index_inj:
  fixes a b c r k :: int
  assumes "0 \<le> r" "r < k" "0 \<le> b" "b < k" "c * k + r = a * k + b"
  shows "c = a \<and> r = b"
proof -
  have k: "k \<noteq> 0" using assms by linarith
  have "(c * k + r) div k = c"
    using assms(1,2) k by (simp add: div_pos_pos_trivial)
  moreover have "(a * k + b) div k = a"
    using assms(3,4) k by (simp add: div_pos_pos_trivial)
  ultimately have "c = a" using assms(5) by metis
  with assms(5) show ?thesis by simp
qed

lemma flagged_iff:
  assumes "in_grid n h" "length m = fst n" "\<And>c. c < fst n \<Longrightarrow> length (m ! c) = snd n"
  shows "(column h - 1) * int (snd n) + (row h - 1) \<in>
           set (map (\<lambda>p. int (fst p) * int (snd n) + int (snd p)) (nonzero_array m))
         \<longleftrightarrow> m ! nat (column h - 1) ! nat (row h - 1)"
proof
  assume "(column h - 1) * int (snd n) + (row h - 1) \<in>
           set (map (\<lambda>p. int (fst p) * int (snd n) + int (snd p)) (nonzero_array m))"
  then obtain c r where cr: "c < length m" "r < length (m ! c)" "m ! c ! r"
    and eq: "int c * int (snd n) + int r = (column h - 1) * int (snd n) + (row h - 1)"
    by (auto simp: set_nonzero_array)
  from cr assms(2,3) have r: "int r < int (snd n)" by simp
  from assms(1) have b: "0 \<le> row h - 1" "row h - 1 < int (snd n)"
    by (simp_all add: in_grid_def)
  from flat_index_inj [OF _ r b eq] have "int c = column h - 1" "int r = row h - 1" by simp_all
  then have "c = nat (column h - 1)" "r = nat (row h - 1)" by simp_all
  with cr(3) show "m ! nat (column h - 1) ! nat (row h - 1)" by simp
next
  assume flag: "m ! nat (column h - 1) ! nat (row h - 1)"
  from assms(1) have c: "nat (column h - 1) < fst n" and r: "nat (row h - 1) < snd n"
    and pos: "0 \<le> column h - 1" "0 \<le> row h - 1"
    unfolding in_grid_def by linarith+
  then have "(nat (column h - 1), nat (row h - 1)) \<in> set (nonzero_array m)"
    using flag assms(2,3) by (simp add: set_nonzero_array)
  then have "int (nat (column h - 1)) * int (snd n) + int (nat (row h - 1)) \<in>
      set (map (\<lambda>p. int (fst p) * int (snd n) + int (snd p)) (nonzero_array m))"
    by force
  with pos show "(column h - 1) * int (snd n) + (row h - 1) \<in>
           set (map (\<lambda>p. int (fst p) * int (snd n) + int (snd p)) (nonzero_array m))"
    by simp
qed


lemma masked_pixels_1d_eq:
  assumes "length m = fst n" "\<And>c. c < fst n \<Longrightarrow> length (m ! c) = snd n"
  shows "(if nonzero_array m \<noteq> []
          then ravel_multi_index (map (\<lambda>p. (int (fst p), int (snd p))) (nonzero_array m)) n
          else Inr []) =
         Inr (map (\<lambda>p. int (fst p) * int (snd n) + int (snd p)) (nonzero_array m))"
  using ravel_multi_index_nonzero [OF assms] by simp

lemma filter_not_flagged:
  assumes "list_all (in_grid n) table" "length m = fst n"
    and "\<And>c. c < fst n \<Longrightarrow> length (m ! c) = snd n"
  shows "filter (\<lambda>h. (column h - 1) * int (snd n) + (row h - 1) \<notin>
             set (map (\<lambda>p. int (fst p) * int (snd n) + int (snd p)) (nonzero_array m))) table
         = filter (\<lambda>h. \<not> m ! nat (column h - 1) ! nat (row h - 1)) table"
proof (rule filter_cong [OF refl])
  fix h assume "h \<in> set table"
  with assms(1) have "in_grid n h" by (simp add: list_all_iff)
  from flagged_iff [OF this assms(2,3)]
  show "((column h - 1) * int (snd n) + (row h - 1) \<notin>
             set (map (\<lambda>p. int (fst p) * int (snd n) + int (snd p)) (nonzero_array m)))
        = (\<not> m ! nat (column h - 1) ! nat (row h - 1))"
    by simp
qed

lemma remove_noisy_pixels_run:
  assumes "fs input_hits_file = Some input_file_h5"
    and "input_file_h5 ''Hits'' = Some (HitTable table)"
    and "0 < chunk_size" and "list_all (in_grid n_pixel) table"
    and "generate_pixel_mask_arrays ops n_pixel threshold filter_size
           (data_aligned_at_events table chunk_size) = Inr (occupancy, pixel_mask)"
    and "length pixel_mask = fst n_pixel"
    and "\<And>c. c < fst n_pixel \<Longrightarrow> length (pixel_mask ! c) = snd n_pixel"
    and "hits_file input_hits_file output_hits_file \<noteq> input_hits_file"
  shows "remove_noisy_pixels ops input_hits_file n_pixel output_hits_file threshold filter_size
           chunk_size fs =
     (Inr (hits_file input_hits_file output_hits_file),
      fs(default_mask_file input_hits_file ''DisabledPixelMask'' \<mapsto>
           [''HistOcc'' \<mapsto> IntArray occupancy, ''DisabledPixelMask'' \<mapsto> BoolArray pixel_mask],
         hits_file input_hits_file output_hits_file \<mapsto>
           [''Hits'' \<mapsto> HitTable
              (filter (\<lambda>h. \<not> pixel_mask ! nat (column h - 1) ! nat (row h - 1)) table),
            ''HistOcc'' \<mapsto> IntArray occupancy,
            ''DisabledPixelMask'' \<mapsto> BoolArray pixel_mask]))"
proof -
  let ?mp = "default_mask_file input_hits_file ''DisabledPixelMask''"
  have cc: "concat (data_aligned_at_events table chunk_size) = table"
    by (rule concat_data_aligned_at_events [OF assms(3)])
  have gen: "generate_pixel_mask ops input_hits_file n_pixel ''DisabledPixelMask'' None
      threshold filter_size chunk_size fs =
    (Inr ?mp, fs(?mp \<mapsto> [''HistOcc'' \<mapsto> IntArray occupancy,
                              ''DisabledPixelMask'' \<mapsto> BoolArray pixel_mask]))"
    using generate_pixel_mask_run [where fs = fs and input_hits_file = input_hits_file
        and output_mask_file = None and pixel_mask_name = "''DisabledPixelMask''",
        OF assms(1,2,5)]
    by simp
  have neq: "?mp \<noteq> input_hits_file" by (rule default_mask_file_neq)
  note sel = select_loop_eq [of n_pixel "data_aligned_at_events table chunk_size", unfolded cc,
      OF assms(4)]
  note flt = filter_not_flagged [OF assms(4,6,7), unfolded set_map]
  show ?thesis
    unfolding remove_noisy_pixels_def gen
    using assms(1,2,8) neq
    by (simp add: open_file_r_def get_node_def get_hits_def nonzero_def hits_file_def
        masked_pixels_1d_eq [OF assms(6,7)] sel flt Let_def)
qed


lemma no_flag_filter:
  assumes "nonzero_array m = []" "list_all (in_grid n) table" "length m = fst n"
    and "\<And>c. c < fst n \<Longrightarrow> length (m ! c) = snd n"
  shows "filter (\<lambda>h. \<not> m ! nat (column h - 1) ! nat (row h - 1)) table = table"
proof -
  have "filter (\<lambda>h. (column h - 1) * int (snd n) + (row h - 1) \<notin>
             set (map (\<lambda>p. int (fst p) * int (snd n) + int (snd p)) (nonzero_array m))) table
         = table"
    by (simp add: assms(1))
  then show ?thesis
    by (simp only: filter_not_flagged [OF assms(2,3,4)])
qed

text \<open>
  C10. For a hit file with at least one hit, every hit on the pixel grid,
  \<open>remove_noisy_pixels\<close> writes to its output file the \<open>Hits\<close> table of exactly the
  hits whose pixel the generated mask does not flag, in their order; when the mask flags
  no pixel this is the input table. The call returns the name of the output file.
\<close>

theorem remove_noisy_pixels_selects:
  assumes "fs input_hits_file = Some input_file_h5"
    and "input_file_h5 ''Hits'' = Some (HitTable table)"
    and "table \<noteq> []" and "0 < chunk_size"
    and "list_all (in_grid n_pixel) table" and "length table < 2 ^ 31"
    and "0 < fst filter_size" and "0 < snd filter_size"
    and "hits_file input_hits_file output_hits_file \<noteq> input_hits_file"
  shows "\<exists>occupancy pixel_mask out_file_h5.
     generate_pixel_mask_arrays ops n_pixel threshold filter_size
         (data_aligned_at_events table chunk_size) = Inr (occupancy, pixel_mask) \<and>
     snd (remove_noisy_pixels ops input_hits_file n_pixel output_hits_file threshold filter_size
            chunk_size fs) (hits_file input_hits_file output_hits_file) = Some out_file_h5 \<and>
     out_file_h5 ''Hits'' =
       Some (HitTable (filter (\<lambda>h. \<not> pixel_mask ! nat (column h - 1) ! nat (row h - 1)) table)) \<and>
     (nonzero_array pixel_mask = [] \<longrightarrow> out_file_h5 ''Hits'' = Some (HitTable table)) \<and>
     fst (remove_noisy_pixels ops input_hits_file n_pixel output_hits_file threshold filter_size
            chunk_size fs) = Inr (hits_file input_hits_file output_hits_file)"
proof -
  let ?chunks = "data_aligned_at_events table chunk_size"
  have cc: "concat ?chunks = table"
    by (rule concat_data_aligned_at_events [OF assms(4)])
  have ne: "?chunks \<noteq> []"
    using assms(3,4) by (simp add: data_aligned_at_events_eq_Nil)
  from generate_pixel_mask_arrays_chunks [of ?chunks n_pixel filter_size ops threshold]
  obtain occupancy pixel_mask
    where arr: "generate_pixel_mask_arrays ops n_pixel threshold filter_size ?chunks =
        Inr (occupancy, pixel_mask)"
      and shape: "length pixel_mask = fst n_pixel"
        "\<And>c. c < fst n_pixel \<Longrightarrow> length (pixel_mask ! c) = snd n_pixel"
    using ne assms(5-8) by (auto simp: cc)
  let ?kept = "filter (\<lambda>h. \<not> pixel_mask ! nat (column h - 1) ! nat (row h - 1)) table"
  note run = remove_noisy_pixels_run [where fs = fs and input_hits_file = input_hits_file
      and output_hits_file = output_hits_file, OF assms(1,2,4,5) arr shape assms(9)]
  show ?thesis
    apply (rule exI [of _ occupancy], rule exI [of _ pixel_mask])
    apply (rule exI [of _ "[''Hits'' \<mapsto> HitTable ?kept, ''HistOcc'' \<mapsto> IntArray occupancy,
        ''DisabledPixelMask'' \<mapsto> BoolArray pixel_mask]"])
    using no_flag_filter [OF _ assms(5) shape]
    apply (auto simp: arr run)
    done
qed


lemma noisy_chunks: "data_aligned_at_events noisy_hits 1000000 = [noisy_hits]"
  by (simp add: data_aligned_at_events.simps chunk_stop_def noisy_hits_def)

lemma noisy_std: "std_dev [3, 3, 1, 1] = 1"
  by (simp add: std_dev_def mean_def power2_eq_square)

lemma noisy_occupancy: "occupancy_loop (2, 2) [noisy_hits] None = Inr (Some [[3, 3], [1, 1]])"
  by code_simp

lemma noisy_median:
  "median_filter [[astype_int32 3, astype_int32 3], [astype_int32 1, astype_int32 1]] (3, 3) =
     Inr [[0, 0], [0, 0]]"
  by code_simp

lemma noisy_arrays:
  "generate_pixel_mask_arrays exact_ops (2, 2) 2 (3, 3) [noisy_hits] =
     Inr ([[3, 3], [1, 1]], [[True, True], [False, False]])"
  unfolding generate_pixel_mask_arrays_def noisy_occupancy
  by (simp add: noisy_median exact_ops_def noisy_std)

lemma noisy_mask_file:
  "default_mask_file ''hits.h5'' ''DisabledPixelMask'' = ''hits_disabled_pixel_mask.h5''"
  by code_simp

lemma noisy_hits_file:
  "[''hits.h5'' \<mapsto> [''Hits'' \<mapsto> HitTable noisy_hits]] ''hits.h5'' =
     Some [''Hits'' \<mapsto> HitTable noisy_hits]"
  "[''Hits'' \<mapsto> HitTable noisy_hits] ''Hits'' = Some (HitTable noisy_hits)"
  by simp_all

lemma noisy_facts:
  "noisy_hits \<noteq> []" "list_all (in_grid (2, 2)) noisy_hits" "length noisy_hits < 2 ^ 31"
  by (simp_all add: noisy_hits_def in_grid_def pixel_hit_def)

lemma noisy_kept:
  "filter (\<lambda>h. \<not> [[True, True], [False, False]] ! nat (column h - 1) ! nat (row h - 1)) noisy_hits
   = [pixel_hit 0 2 1, pixel_hit 1 2 2]"
  by (simp add: noisy_hits_def pixel_hit_def)

lemma example_mask_shape:
  "length [[True, True], [False, False]] = fst (2 :: nat, 2 :: nat)"
  "c < fst (2 :: nat, 2 :: nat) \<Longrightarrow> length ([[True, True], [False, False]] ! c) = snd (2 :: nat, 2 :: nat)"
  by (auto simp: less_Suc_eq numeral_2_eq_2)

lemma remove_noisy_pixels_example:
  "remove_noisy_pixels exact_ops ''hits.h5'' (2, 2) None 2 (3, 3) 1000000
       [''hits.h5'' \<mapsto> [''Hits'' \<mapsto> HitTable noisy_hits]] =
     (Inr ''hits_noisy_pixels.h5'',
      [''hits.h5'' \<mapsto> [''Hits'' \<mapsto> HitTable noisy_hits],
       ''hits_disabled_pixel_mask.h5'' \<mapsto>
          [''HistOcc'' \<mapsto> IntArray [[3, 3], [1, 1]],
           ''DisabledPixelMask'' \<mapsto> BoolArray [[True, True], [False, False]]],
       ''hits_noisy_pixels.h5'' \<mapsto>
          [''Hits'' \<mapsto> HitTable [pixel_hit 0 2 1, pixel_hit 1 2 2],
           ''HistOcc'' \<mapsto> IntArray [[3, 3], [1, 1]],
           ''DisabledPixelMask'' \<mapsto> BoolArray [[True, True], [False, False]]]])"
proof -
  have arr: "generate_pixel_mask_arrays exact_ops (2, 2) 2 (3, 3)
      (data_aligned_at_events noisy_hits 1000000) =
    Inr ([[3, 3], [1, 1]], [[True, True], [False, False]])"
    by (simp add: noisy_chunks noisy_arrays)
  have ne: "hits_file ''hits.h5'' None \<noteq> ''hits.h5''"
    by (simp add: hits_file_def splitext_underscore_neq)
  have pos: "0 < (1000000 :: nat)" by simp
  from remove_noisy_pixels_run [where fs = "[''hits.h5'' \<mapsto> [''Hits'' \<mapsto> HitTable noisy_hits]]"
      and input_hits_file = "''hits.h5''" and output_hits_file = None,
      OF noisy_hits_file pos noisy_facts(2) arr example_mask_shape ne]
  show ?thesis
    by (simp add: noisy_kept noisy_mask_file hits_file_def example_root)
qed

lemma example_in_grid: "list_all (in_grid (2, 2)) example_hits"
  by (simp add: example_hits_def in_grid_def pixel_hit_def)

lemma example_kept:
  "filter (\<lambda>h. \<not> [[True, True], [False, False]] ! nat (column h - 1) ! nat (row h - 1))
      example_hits = []"
  by (simp add: example_hits_def pixel_hit_def)

lemma remove_noisy_pixels_all_flagged:
  "remove_noisy_pixels exact_ops ''hits.h5'' (2, 2) None 1 (3, 3) 1000000
       [''hits.h5'' \<mapsto> [''Hits'' \<mapsto> HitTable example_hits]] =
     (Inr ''hits_noisy_pixels.h5'',
      [''hits.h5'' \<mapsto> [''Hits'' \<mapsto> HitTable example_hits],
       ''hits_disabled_pixel_mask.h5'' \<mapsto>
          [''HistOcc'' \<mapsto> IntArray [[2, 2], [0, 0]],
           ''DisabledPixelMask'' \<mapsto> BoolArray [[True, True], [False, False]]],
       ''hits_noisy_pixels.h5'' \<mapsto>
          [''Hits'' \<mapsto> HitTable [],
           ''HistOcc'' \<mapsto> IntArray [[2, 2], [0, 0]],
           ''DisabledPixelMask'' \<mapsto> BoolArray [[True, True], [False, False]]]])"
proof -
  have arr: "generate_pixel_mask_arrays exact_ops (2, 2) 1 (3, 3)
      (data_aligned_at_events example_hits 1000000) =
    Inr ([[2, 2], [0, 0]], [[True, True], [False, False]])"
    by (simp add: example_chunks example_arrays)
  have ne: "hits_file ''hits.h5'' None \<noteq> ''hits.h5''"
    by (simp add: hits_file_def splitext_underscore_neq)
  have pos: "0 < (1000000 :: nat)" by simp
  from remove_noisy_pixels_run [where fs = "[''hits.h5'' \<mapsto> [''Hits'' \<mapsto> HitTable example_hits]]"
      and input_hits_file = "''hits.h5''" and output_hits_file = None,
      OF example_hits_file pos example_in_grid arr example_mask_shape ne]
  show ?thesis
    by (simp add: example_kept noisy_mask_file hits_file_def example_root)
qed

theorem remove_noisy_pixels_selects_witness:
  "noisy_hits \<noteq> [] \<and> list_all (in_grid (2, 2)) noisy_hits \<and> length noisy_hits < 2 ^ 31 \<and>
   hits_file ''hits.h5'' None \<noteq> ''hits.h5'' \<and>
   (\<exists>occupancy pixel_mask out_file_h5.
     generate_pixel_mask_arrays exact_ops (2, 2) 2 (3, 3)
         (data_aligned_at_events noisy_hits 1000000) = Inr (occupancy, pixel_mask) \<and>
     snd (remove_noisy_pixels exact_ops ''hits.h5'' (2, 2) None 2 (3, 3) 1000000
            [''hits.h5'' \<mapsto> [''Hits'' \<mapsto> HitTable noisy_hits]])
         (hits_file ''hits.h5'' None) = Some out_file_h5 \<and>
     out_file_h5 ''Hits'' =
       Some (HitTable (filter (\<lambda>h. \<not> pixel_mask ! nat (column h - 1) ! nat (row h - 1))
                              noisy_hits)) \<and>
     (nonzero_array pixel_mask = [] \<longrightarrow> out_file_h5 ''Hits'' = Some (HitTable noisy_hits)) \<and>
     fst (remove_noisy_pixels exact_ops ''hits.h5'' (2, 2) None 2 (3, 3) 1000000
            [''hits.h5'' \<mapsto> [''Hits'' \<mapsto> HitTable noisy_hits]]) =
       Inr (hits_file ''hits.h5'' None))"
proof -
  have ne: "hits_file ''hits.h5'' None \<noteq> ''hits.h5''"
    by (simp add: hits_file_def splitext_underscore_neq)
  from remove_noisy_pixels_selects [where fs = "[''hits.h5'' \<mapsto> [''Hits'' \<mapsto> HitTable noisy_hits]]"
      and input_hits_file = "''hits.h5''" and output_hits_file = None and ops = exact_ops
      and threshold = 2 and filter_size = "(3, 3)" and chunk_size = 1000000
      and n_pixel = "(2, 2)", OF noisy_hits_file noisy_facts(1) _ noisy_facts(2,3) _ _ ne]
  show ?thesis using noisy_facts ne by simp
qed

end
